theory Spec2Isabelle
  imports Complex_Main
begin

section \<open>JavaScript numbers\<close>

text \<open>
  The TypeScript type \<open>number\<close> (and its aliases GLfloat, GLclampf, GLsizei) is
  modelled by \<open>jsnum\<close>: a finite value, one of the two infinities, or NaN. A finite
  value is a rational, as every IEEE double is. The arithmetic operators round their
  exact result to the nearest double, and a store into the Float32Array behind
  gl-matrix's vec2 rounds to the nearest single (see the next section). The two zeros
  of IEEE arithmetic are one value. Everything else follows ECMAScript: NaN is
  contagious and compares false with everything, a division by zero yields an
  infinity or NaN.
\<close>

datatype jsnum = Num rat | PosInf | NegInf | NaN

section \<open>Binary floating point\<close>

text \<open>
  Rounding to a binary format of precision \<open>p\<close> (bits of the significand) with least
  exponent \<open>emin\<close>, to nearest, ties to even. \<open>floor_log2 n\<close> is the position of the
  leading bit of a positive integer and \<open>exponent_of x\<close> the exponent \<open>e\<close> with
  \<open>2^e \<le> x < 2^(e+1)\<close> of a positive rational. A value is rounded to a multiple of
  the unit in the last place of its binade, \<open>2^(e - p + 1)\<close>; below \<open>2^emin\<close> the
  unit stays that of the least binade (subnormals).
\<close>

function floor_log2 :: "int \<Rightarrow> int" where
  "floor_log2 n = (if n < 2 then 0 else 1 + floor_log2 (n div 2))"
  by auto

termination
  by (relation "measure nat") auto

declare floor_log2.simps [simp del]

definition exponent_of :: "rat \<Rightarrow> int" where
  "exponent_of x =
     (if 1 \<le> x then floor_log2 \<lfloor>x\<rfloor> else - 1 - floor_log2 (\<lceil>1 / x\<rceil> - 1))"

definition round_half_even :: "rat \<Rightarrow> int" where
  "round_half_even x =
     (let f = \<lfloor>x\<rfloor>; d = x - of_int f
      in if d < 1 / 2 then f else if 1 / 2 < d then f + 1 else if even f then f else f + 1)"

definition round_binary :: "nat \<Rightarrow> int \<Rightarrow> rat \<Rightarrow> rat" where
  "round_binary p emin x =
     (if x = 0 then 0
      else let q = 2 powi (max (exponent_of \<bar>x\<bar>) emin - int p + 1)
           in of_int (round_half_even (x / q)) * q)"

text \<open>
  The two formats of JavaScript: binary64, the format of \<open>number\<close>, and binary32, the
  format of the elements of a Float32Array. A rounded value of magnitude \<open>2^(emax+1)\<close>
  or more is an infinity.
\<close>

definition float64 :: "rat \<Rightarrow> rat" where
  "float64 x = round_binary 53 (- 1022) x"

definition float32 :: "rat \<Rightarrow> rat" where
  "float32 x = round_binary 24 (- 126) x"

definition overflow :: "int \<Rightarrow> rat \<Rightarrow> jsnum" where
  "overflow emax r =
     (if 2 powi (emax + 1) \<le> r then PosInf
      else if r \<le> - (2 powi (emax + 1)) then NegInf else Num r)"

definition binary64 :: "rat \<Rightarrow> jsnum" where
  "binary64 x = overflow 1023 (float64 x)"

definition binary32 :: "rat \<Rightarrow> jsnum" where
  "binary32 x = overflow 127 (float32 x)"

text \<open>
  \<open>Math.fround\<close>, the conversion a store into a Float32Array applies to the number
  stored; reading the element back gives the rounded value.
\<close>

fun Math_fround :: "jsnum \<Rightarrow> jsnum" where
  "Math_fround (Num x) = binary32 x"
| "Math_fround a = a"

text \<open>The relational operator \<open>a < b\<close> of JavaScript on numbers.\<close>

fun js_lt :: "jsnum \<Rightarrow> jsnum \<Rightarrow> bool" where
  "js_lt NaN b = False"
| "js_lt a NaN = False"
| "js_lt (Num a) (Num b) = (a < b)"
| "js_lt (Num a) PosInf = True"
| "js_lt (Num a) NegInf = False"
| "js_lt PosInf b = False"
| "js_lt NegInf NegInf = False"
| "js_lt NegInf b = True"

text \<open>\<open>a > b\<close> is \<open>b < a\<close>; \<open>a === b\<close> is equality except that NaN equals nothing.\<close>

definition js_gt :: "jsnum \<Rightarrow> jsnum \<Rightarrow> bool" where
  "js_gt a b = js_lt b a"

definition js_strict_eq :: "jsnum \<Rightarrow> jsnum \<Rightarrow> bool" where
  "js_strict_eq a b = (a \<noteq> NaN \<and> a = b)"

text \<open>\<open>Math.min\<close>, \<open>Math.max\<close> and \<open>Math.round\<close> (round half up: \<open>floor(x + 0.5)\<close>).\<close>

definition Math_min :: "jsnum \<Rightarrow> jsnum \<Rightarrow> jsnum" where
  "Math_min a b = (if a = NaN \<or> b = NaN then NaN else if js_lt b a then b else a)"

definition Math_max :: "jsnum \<Rightarrow> jsnum \<Rightarrow> jsnum" where
  "Math_max a b = (if a = NaN \<or> b = NaN then NaN else if js_lt a b then b else a)"

fun Math_round :: "jsnum \<Rightarrow> jsnum" where
  "Math_round (Num x) = Num (of_int \<lfloor>x + 1 / 2\<rfloor>)"
| "Math_round a = a"

text \<open>
  The arithmetic operators \<open>*\<close>, \<open>/\<close>, \<open>+\<close> and \<open>-\<close>: the exact result, rounded to
  a double.
\<close>

fun js_mul :: "jsnum \<Rightarrow> jsnum \<Rightarrow> jsnum" where
  "js_mul NaN b = NaN"
| "js_mul a NaN = NaN"
| "js_mul (Num a) (Num b) = binary64 (a * b)"
| "js_mul (Num a) PosInf = (if a = 0 then NaN else if 0 < a then PosInf else NegInf)"
| "js_mul (Num a) NegInf = (if a = 0 then NaN else if 0 < a then NegInf else PosInf)"
| "js_mul PosInf (Num b) = (if b = 0 then NaN else if 0 < b then PosInf else NegInf)"
| "js_mul NegInf (Num b) = (if b = 0 then NaN else if 0 < b then NegInf else PosInf)"
| "js_mul PosInf PosInf = PosInf"
| "js_mul PosInf NegInf = NegInf"
| "js_mul NegInf PosInf = NegInf"
| "js_mul NegInf NegInf = PosInf"

fun js_div :: "jsnum \<Rightarrow> jsnum \<Rightarrow> jsnum" where
  "js_div NaN b = NaN"
| "js_div a NaN = NaN"
| "js_div (Num a) (Num b) =
     (if b \<noteq> 0 then binary64 (a / b)
      else if a = 0 then NaN else if 0 < a then PosInf else NegInf)"
| "js_div (Num a) PosInf = Num 0"
| "js_div (Num a) NegInf = Num 0"
| "js_div PosInf (Num b) = (if 0 \<le> b then PosInf else NegInf)"
| "js_div NegInf (Num b) = (if 0 \<le> b then NegInf else PosInf)"
| "js_div a b = NaN"

fun js_add :: "jsnum \<Rightarrow> jsnum \<Rightarrow> jsnum" where
  "js_add NaN b = NaN"
| "js_add a NaN = NaN"
| "js_add (Num a) (Num b) = binary64 (a + b)"
| "js_add PosInf NegInf = NaN"
| "js_add NegInf PosInf = NaN"
| "js_add (Num a) b = b"
| "js_add a b = a"

fun js_neg :: "jsnum \<Rightarrow> jsnum" where
  "js_neg (Num a) = Num (- a)"
| "js_neg PosInf = NegInf"
| "js_neg NegInf = PosInf"
| "js_neg NaN = NaN"

definition js_sub :: "jsnum \<Rightarrow> jsnum \<Rightarrow> jsnum" where
  "js_sub a b = js_add a (js_neg b)"

section \<open>Two-component vectors\<close>

text \<open>
  \<open>GLclampf2\<close> and \<open>GLsizei2\<close> are pairs of numbers. A \<open>vec2\<close> of gl-matrix is a
  Float32Array of two elements, and every \<open>out\<close> the canvas passes to gl-matrix is
  one (\<open>vec2.create()\<close>): the functions work componentwise on doubles and store each
  result in single precision. The value given here is \<open>out\<close> as read back.
\<close>

type_synonym vec2 = "jsnum \<times> jsnum"

definition vec2_mul :: "vec2 \<Rightarrow> vec2 \<Rightarrow> vec2" where
  "vec2_mul a b =
     (Math_fround (js_mul (fst a) (fst b)), Math_fround (js_mul (snd a) (snd b)))"

definition vec2_div :: "vec2 \<Rightarrow> vec2 \<Rightarrow> vec2" where
  "vec2_div a b =
     (Math_fround (js_div (fst a) (fst b)), Math_fround (js_div (snd a) (snd b)))"

definition vec2_max :: "vec2 \<Rightarrow> vec2 \<Rightarrow> vec2" where
  "vec2_max a b =
     (Math_fround (Math_max (fst a) (fst b)), Math_fround (Math_max (snd a) (snd b)))"

definition vec2_round :: "vec2 \<Rightarrow> vec2" where
  "vec2_round a = (Math_fround (Math_round (fst a)), Math_fround (Math_round (snd a)))"

definition vec2_exactEquals :: "vec2 \<Rightarrow> vec2 \<Rightarrow> bool" where
  "vec2_exactEquals a b = (js_strict_eq (fst a) (fst b) \<and> js_strict_eq (snd a) (snd b))"

text \<open>
  Modelled from the spec: \<open>clamp2\<close> of core/gl-matrix-extensions, which is not among
  the sources. The spec has each component clamped to the interval given; the order
  of the arguments is the one of the calls in canvas.ts, \<open>clamp2(out, x, min, max)\<close>,
  each component is \<open>Math.max(min, Math.min(max, x))\<close>, and \<open>out\<close> is the
  Float32Array the canvas passes.
\<close>

definition clamp2 :: "vec2 \<Rightarrow> vec2 \<Rightarrow> vec2 \<Rightarrow> vec2" where
  "clamp2 x lo hi =
     (Math_fround (Math_max (fst lo) (Math_min (fst hi) (fst x))),
      Math_fround (Math_max (snd lo) (Math_min (snd hi) (snd x))))"

section \<open>Collaborators of the canvas\<close>

text \<open>
  The canvas refers to its renderer by reference and compares references
  (\<open>this._renderer === renderer\<close>), so renderers live in a store, \<open>heap\<close>, and a
  reference is an address.
\<close>

type_synonym ref = nat

type_synonym GLclampf4 = "rat \<times> rat \<times> rat \<times> rat"

text \<open>
  Modelled from the spec: class \<open>Color\<close> of core/color, which is not among the sources:
  an rgba value, read through \<open>rgba\<close>, and compared by value by \<open>equals\<close>.
\<close>

datatype Color = Color (rgba: GLclampf4)

definition Color_equals :: "Color \<Rightarrow> Color \<Rightarrow> bool" where
  "Color_equals a b = (rgba a = rgba b)"

datatype FramePrecisionString = P_float | P_half | P_byte | P_auto

text \<open>
  Modelled from the spec: \<open>AbstractRenderer\<close> of core/renderer, which is not among the
  sources. What the canvas uses of a pipeline is its contract: \<open>initialize\<close> (which
  throws on an initialized pipeline, as the comment in \<open>bind\<close> says), \<open>uninitialize\<close>,
  and the setters of resolution, clear colour, precision and debug texture. The
  precision is negotiated: the setter stores the precision the pipeline can honour,
  \<open>r_supported\<close> of the one requested, and the getter reads what is stored.
\<close>

record Renderer =
  r_initialized :: bool
  r_frameSize :: vec2
  r_clearColor :: GLclampf4
  r_framePrecision :: FramePrecisionString
  r_debugTexture :: int
  r_supported :: "FramePrecisionString \<Rightarrow> FramePrecisionString"

text \<open>
  The calls the canvas makes on its controller and on renderers, in order. The list is
  a record of the execution beside the state: a claim that a method is invoked, or
  invoked before another, is a statement about it.
\<close>

datatype call =
  Call_block
| Call_unblock
| Call_set_controllable "ref option"
| Call_initialize ref
| Call_uninitialize ref
| Call_set_frameSize ref vec2
| Call_set_clearColor ref GLclampf4
| Call_set_framePrecision ref FramePrecisionString
| Call_set_debugTexture ref int

text \<open>
  The messages of canvas.ts that \<open>log_if\<close> hands to the logger, with the values they
  interpolate, and the level each is logged at (the third message of the frameScale
  setter gives its level as the number 2).
\<close>

datatype LogLevel = Dev | ModuleDev | Level nat

datatype log_message =
  Frame_width_scale_clamped jsnum
| Frame_height_scale_clamped jsnum
| Frame_scale_adjusted vec2 vec2
| Frame_width_size_clamped jsnum jsnum
| Frame_height_size_clamped jsnum jsnum
| Frame_size_adjusted vec2 vec2

datatype error = AssertionFailed | AlreadyInitialized

section \<open>The canvas and its environment\<close>

text \<open>
  One record holds the fields of the \<open>Canvas\<close> object (\<open>c_x\<close> is \<open>this._x\<close>) and
  what the canvas acts on: its controller (\<open>ctl_\<close>), its canvas element (\<open>el_\<close>), the
  store of renderers, the calls made so far and the messages logged so far. A field
  holds a value of its declared TypeScript type. A \<open>ReplaySubject(1)\<close> is its buffer:
  the last value pushed, if any. The graphics context is an opaque handle that the
  canvas only passes on, and is left out; so are the constructor, which parses the data
  attributes of the element, and the frames the controller produces while it is not
  blocked.
\<close>

record world =
  ctl_blocked :: bool
  ctl_controllable :: "ref option"
  c_renderer :: "ref option"
  c_clearColor :: Color
  c_framePrecision :: FramePrecisionString
  c_framePrecisionSubject :: "FramePrecisionString option"
  c_size :: vec2
  c_sizeSubject :: "vec2 option"
  c_frameScale :: vec2
  c_frameScaleSubject :: "vec2 option"
  c_frameSize :: vec2
  c_frameSizeSubject :: "vec2 option"
  c_favorSizeOverScale :: bool
  el_size :: vec2
  el_width :: jsnum
  el_height :: jsnum
  heap :: "ref \<Rightarrow> Renderer"
  calls :: "call list"
  console :: "(LogLevel \<times> log_message) list"

subsection \<open>Controller, renderer and logger\<close>

text \<open>
  Modelled from the spec: \<open>Controller\<close> of core/controller, which is not among the
  sources: the frame controller of the spec, a boolean gate (\<open>block\<close> sets it,
  \<open>unblock\<close> clears it, \<open>blocked\<close> reads it) and the controllable it drives.
\<close>

definition Controller_block :: "world \<Rightarrow> world" where
  "Controller_block w = w\<lparr>ctl_blocked := True, calls := calls w @ [Call_block]\<rparr>"

definition Controller_unblock :: "world \<Rightarrow> world" where
  "Controller_unblock w = w\<lparr>ctl_blocked := False, calls := calls w @ [Call_unblock]\<rparr>"

definition Controller_set_controllable :: "ref option \<Rightarrow> world \<Rightarrow> world" where
  "Controller_set_controllable c w =
     w\<lparr>ctl_controllable := c, calls := calls w @ [Call_set_controllable c]\<rparr>"

text \<open>
  The methods of a renderer (see \<open>Renderer\<close> above for what is modelled from the
  spec), each acting on the renderer at an address of the store.
\<close>

definition Renderer_initialize :: "ref \<Rightarrow> world \<Rightarrow> error + world" where
  "Renderer_initialize r w =
     (if r_initialized (heap w r) then Inl AlreadyInitialized
      else Inr (w\<lparr>heap := (heap w)(r := (heap w r)\<lparr>r_initialized := True\<rparr>),
                  calls := calls w @ [Call_initialize r]\<rparr>))"

definition Renderer_uninitialize :: "ref \<Rightarrow> world \<Rightarrow> world" where
  "Renderer_uninitialize r w =
     w\<lparr>heap := (heap w)(r := (heap w r)\<lparr>r_initialized := False\<rparr>),
       calls := calls w @ [Call_uninitialize r]\<rparr>"

definition Renderer_set_frameSize :: "ref \<Rightarrow> vec2 \<Rightarrow> world \<Rightarrow> world" where
  "Renderer_set_frameSize r v w =
     w\<lparr>heap := (heap w)(r := (heap w r)\<lparr>r_frameSize := v\<rparr>),
       calls := calls w @ [Call_set_frameSize r v]\<rparr>"

definition Renderer_set_clearColor :: "ref \<Rightarrow> GLclampf4 \<Rightarrow> world \<Rightarrow> world" where
  "Renderer_set_clearColor r v w =
     w\<lparr>heap := (heap w)(r := (heap w r)\<lparr>r_clearColor := v\<rparr>),
       calls := calls w @ [Call_set_clearColor r v]\<rparr>"

definition Renderer_set_framePrecision :: "ref \<Rightarrow> FramePrecisionString \<Rightarrow> world \<Rightarrow> world" where
  "Renderer_set_framePrecision r p w =
     w\<lparr>heap := (heap w)(r := (heap w r)\<lparr>r_framePrecision := r_supported (heap w r) p\<rparr>),
       calls := calls w @ [Call_set_framePrecision r p]\<rparr>"

definition Renderer_set_debugTexture :: "ref \<Rightarrow> int \<Rightarrow> world \<Rightarrow> world" where
  "Renderer_set_debugTexture r v w =
     w\<lparr>heap := (heap w)(r := (heap w r)\<lparr>r_debugTexture := v\<rparr>),
       calls := calls w @ [Call_set_debugTexture r v]\<rparr>"

text \<open>
  Modelled from the spec: \<open>log_if\<close> and \<open>assert\<close> of core/auxiliaries and
  \<open>Resizable.elementSize\<close> of core/resizable, which are not among the sources.
  \<open>log_if\<close> hands its message to the logger when its condition holds (the
  developer-level diagnostic of the spec) and never throws; a failing \<open>assert\<close> is
  the error \<open>AssertionFailed\<close>; \<open>elementSize\<close> reads the native pixel size of the
  element, which the host environment sets: the field \<open>el_size\<close>.
\<close>

definition log_if :: "bool \<Rightarrow> LogLevel \<Rightarrow> log_message \<Rightarrow> world \<Rightarrow> world" where
  "log_if statement level message w =
     (if statement then w\<lparr>console := console w @ [(level, message)]\<rparr> else w)"

subsection \<open>The methods of Canvas\<close>

definition framePrecisionNext :: "world \<Rightarrow> world" where
  "framePrecisionNext w = w\<lparr>c_framePrecisionSubject := Some (c_framePrecision w)\<rparr>"

definition sizeNext :: "world \<Rightarrow> world" where
  "sizeNext w = w\<lparr>c_sizeSubject := Some (c_size w)\<rparr>"

definition frameScaleNext :: "world \<Rightarrow> world" where
  "frameScaleNext w = w\<lparr>c_frameScaleSubject := Some (c_frameScale w)\<rparr>"

definition frameSizeNext :: "world \<Rightarrow> world" where
  "frameSizeNext w = w\<lparr>c_frameSizeSubject := Some (c_frameSize w)\<rparr>"

definition retrieveSize :: "world \<Rightarrow> world" where
  "retrieveSize w = sizeNext (w\<lparr>c_size := (fst (el_size w), snd (el_size w))\<rparr>)"

text \<open>
  The setter of \<open>frameScale\<close> (canvas.ts, lines 415 to 445). Its \<open>scale\<close> and
  \<open>size\<close> are Float32Arrays, so every value it computes is stored in single
  precision; \<open>tuple2\<close> copies the two elements into the fields.
\<close>

definition Canvas_set_frameScale :: "vec2 \<Rightarrow> world \<Rightarrow> error + world" where
  "Canvas_set_frameScale frameScale w =
     (let w1 = log_if (js_lt (fst frameScale) (Num 0) \<or> js_gt (fst frameScale) (Num 1)) Dev
                 (Frame_width_scale_clamped (fst frameScale)) w;
          w2 = log_if (js_lt (snd frameScale) (Num 0) \<or> js_gt (snd frameScale) (Num 1)) Dev
                 (Frame_height_scale_clamped (fst frameScale)) w1;
          scale0 = clamp2 frameScale (Num 0, Num 0) (Num 1, Num 1);
          size0 = vec2_mul (c_size w2) scale0;
          size1 = vec2_max (Num 1, Num 1) size0;
          size2 = vec2_round size1;
          scale1 = vec2_div size2 (c_size w2);
          w3 = log_if (\<not> vec2_exactEquals scale1 frameScale) (Level 2)
                 (Frame_scale_adjusted scale1 frameScale) w2;
          w4 = w3\<lparr>c_frameScale := scale1, c_frameSize := size2, c_favorSizeOverScale := False\<rparr>;
          w5 = frameSizeNext (frameScaleNext w4)
      in Inr (case c_renderer w5 of
                None \<Rightarrow> w5
              | Some r \<Rightarrow> Renderer_set_frameSize r (c_frameSize w5) w5))"

text \<open>
  The setter of \<open>frameSize\<close> (canvas.ts, lines 472 to 499), with \<open>size\<close> and
  \<open>scale\<close> Float32Arrays as well.
\<close>

definition Canvas_set_frameSize :: "vec2 \<Rightarrow> world \<Rightarrow> error + world" where
  "Canvas_set_frameSize frameSize w =
     (let w1 = log_if (js_lt (fst frameSize) (Num 1) \<or> js_gt (fst frameSize) (fst (c_size w))) Dev
                 (Frame_width_size_clamped (fst (c_size w)) (fst frameSize)) w;
          w2 = log_if (js_lt (snd frameSize) (Num 1) \<or> js_gt (snd frameSize) (snd (c_size w))) Dev
                 (Frame_height_size_clamped (snd (c_size w)) (snd frameSize)) w1;
          size0 = clamp2 frameSize (Num 1, Num 1) (c_size w2);
          size1 = vec2_round size0;
          w3 = log_if (\<not> vec2_exactEquals size1 frameSize) ModuleDev
                 (Frame_size_adjusted size1 frameSize) w2;
          scale0 = vec2_div size1 (c_size w3);
          w4 = w3\<lparr>c_frameScale := scale0, c_frameSize := size1\<rparr>;
          w5 = w4\<lparr>c_favorSizeOverScale := \<not> vec2_exactEquals (c_frameSize w4) (c_size w4)\<rparr>;
          w6 = frameSizeNext (frameScaleNext w5)
      in Inr (case c_renderer w6 of
                None \<Rightarrow> w6
              | Some r \<Rightarrow> Renderer_set_frameSize r (c_frameSize w6) w6))"

text \<open>
  \<open>onResize\<close> (lines 239 to 262) and the public \<open>resize\<close> (lines 368 to 370). The
  controller is blocked and unblocked only under \<open>if (this._renderer)\<close>.
\<close>

definition Canvas_onResize :: "world \<Rightarrow> error + world" where
  "Canvas_onResize w =
     (let w1 = retrieveSize w;
          w2 = w1\<lparr>el_width := fst (c_size w1), el_height := snd (c_size w1)\<rparr>;
          w3 = (if c_renderer w2 \<noteq> None then Controller_block w2 else w2)
      in case (if c_favorSizeOverScale w3 then Canvas_set_frameSize (c_frameSize w3) w3
               else Canvas_set_frameScale (c_frameScale w3) w3) of
           Inl e \<Rightarrow> Inl e
         | Inr w4 \<Rightarrow> Inr (if c_renderer w4 \<noteq> None then Controller_unblock w4 else w4))"

definition Canvas_resize :: "world \<Rightarrow> error + world" where
  "Canvas_resize w = Canvas_onResize w"

text \<open>
  \<open>unbind\<close> (lines 338 to 350), \<open>bind\<close> (lines 302 to 332) and \<open>dispose\<close> (lines
  356 to 363; \<open>super.dispose()\<close> of \<open>Resizable\<close>, which stops listening to resize
  events, has no effect on this state).
\<close>

definition Canvas_unbind :: "world \<Rightarrow> error + world" where
  "Canvas_unbind w =
     (if c_renderer w = None then Inr w
      else Inr ((Controller_set_controllable None (Controller_block w))\<lparr>c_renderer := None\<rparr>))"

definition Canvas_bind :: "ref option \<Rightarrow> world \<Rightarrow> error + world" where
  "Canvas_bind renderer w =
     (if c_renderer w = renderer then Inr w
      else (case Canvas_unbind w of
        Inl e \<Rightarrow> Inl e
      | Inr w1 \<Rightarrow>
         (case renderer of
            None \<Rightarrow> Inr w1
          | Some r \<Rightarrow>
             (if \<not> ctl_blocked w1 then Inl AssertionFailed
              else (case Renderer_initialize r (w1\<lparr>c_renderer := Some r\<rparr>) of
                Inl e \<Rightarrow> Inl e
              | Inr w2 \<Rightarrow>
                 (let w3 = Renderer_set_frameSize r (c_frameSize w2) w2;
                      w4 = Renderer_set_clearColor r (rgba (c_clearColor w3)) w3;
                      w5 = Renderer_set_framePrecision r (c_framePrecision w4) w4;
                      w6 = Renderer_set_debugTexture r (- 1) w5;
                      w7 = Controller_set_controllable (Some r) w6
                  in Inr (Controller_unblock w7)))))))"

definition Canvas_dispose :: "world \<Rightarrow> error + world" where
  "Canvas_dispose w =
     (case c_renderer w of
        None \<Rightarrow> Inr w
      | Some r \<Rightarrow> Canvas_unbind (Renderer_uninitialize r w))"

text \<open>The getter and the setter of \<open>framePrecision\<close> (lines 536 to 553), and of \<open>clearColor\<close>.\<close>

definition Canvas_get_framePrecision :: "world \<Rightarrow> FramePrecisionString" where
  "Canvas_get_framePrecision w = c_framePrecision w"

definition Canvas_set_framePrecision :: "FramePrecisionString \<Rightarrow> world \<Rightarrow> error + world" where
  "Canvas_set_framePrecision precision w =
     (let w1 = w\<lparr>c_framePrecision := precision\<rparr>;
          w2 = (case c_renderer w1 of
                  None \<Rightarrow> w1
                | Some r \<Rightarrow>
                   (let w' = Renderer_set_framePrecision r (c_framePrecision w1) w1
                    in w'\<lparr>c_framePrecision := r_framePrecision (heap w' r)\<rparr>))
      in Inr (framePrecisionNext w2))"

definition Canvas_set_clearColor :: "Color \<Rightarrow> world \<Rightarrow> error + world" where
  "Canvas_set_clearColor clearColor w =
     (let w1 = w\<lparr>c_clearColor := clearColor\<rparr>
      in Inr (case c_renderer w1 of
                None \<Rightarrow> w1
              | Some r \<Rightarrow> Renderer_set_clearColor r (rgba (c_clearColor w1)) w1))"

section \<open>Labels\<close>

text \<open>
  Modelled from the spec: \<open>ChangeLookup\<close> of changelookup.ts, which is not among the
  sources: the ChangeSet of the spec, a flag per category and the aggregate \<open>any\<close>;
  \<open>alter\<close> sets the category and \<open>any\<close>, \<open>reset\<close> clears all. The categories are
  those the label creates its lookup with.
\<close>

record ChangeLookup =
  alt_any :: bool
  alt_color :: bool
  alt_resources :: bool
  alt_text :: bool
  alt_typesetting :: bool
  alt_transformation :: bool

datatype category = Cat_color | Cat_resources | Cat_text | Cat_typesetting | Cat_transformation

fun ChangeLookup_alter :: "category \<Rightarrow> ChangeLookup \<Rightarrow> ChangeLookup" where
  "ChangeLookup_alter Cat_color a = a\<lparr>alt_color := True, alt_any := True\<rparr>"
| "ChangeLookup_alter Cat_resources a = a\<lparr>alt_resources := True, alt_any := True\<rparr>"
| "ChangeLookup_alter Cat_text a = a\<lparr>alt_text := True, alt_any := True\<rparr>"
| "ChangeLookup_alter Cat_typesetting a = a\<lparr>alt_typesetting := True, alt_any := True\<rparr>"
| "ChangeLookup_alter Cat_transformation a = a\<lparr>alt_transformation := True, alt_any := True\<rparr>"

definition ChangeLookup_reset :: "ChangeLookup \<Rightarrow> ChangeLookup" where
  "ChangeLookup_reset a =
     a\<lparr>alt_any := False, alt_color := False, alt_resources := False, alt_text := False,
       alt_typesetting := False, alt_transformation := False\<rparr>"

text \<open>
  Modelled from the spec: \<open>Text\<close> of text.ts and \<open>FontFace\<close> of fontface.ts, which are
  not among the sources. A text is a shared object with its string and its own
  alteration flag, which its getter \<open>altered\<close> reads. Of a font face the label uses
  the two metrics it queries, \<open>kerning(a, b)\<close> and \<open>glyph(c).advance\<close>; they are
  parameters here.
\<close>

record Text =
  t_text :: string
  t_altered :: bool

record FontFace =
  ff_kerning :: "jsnum \<Rightarrow> jsnum \<Rightarrow> jsnum"
  ff_glyph_advance :: "jsnum \<Rightarrow> jsnum"

datatype Alignment = Alignment_Left | Alignment_Center | Alignment_Right

datatype LineAnchor =
  LineAnchor_Top | LineAnchor_Ascent | LineAnchor_Center | LineAnchor_Baseline
| LineAnchor_Descent | LineAnchor_Bottom

text \<open>
  The field \<open>_text: Text | string\<close> holds a reference to a text object or a string;
  \<open>_fontFace\<close> holds a reference, which the setter compares with \<open>===\<close>. One record
  holds the fields of the \<open>Label\<close> object (\<open>l_x\<close> is \<open>this._x\<close>), each a value of
  its declared type, and the stores of the text objects and font faces it may refer
  to. A string is a list of characters; only its length and the codes of its
  characters are read.
\<close>

datatype text_value = TextObject ref | StringValue string

record label_world =
  l_text :: text_value
  l_wordWrap :: bool
  l_alignment :: Alignment
  l_lineAnchor :: LineAnchor
  l_lineWidth :: jsnum
  l_fontFace :: ref
  l_color :: Color
  l_backgroundColor :: Color
  l_altered :: ChangeLookup
  texts :: "ref \<Rightarrow> Text"
  fonts :: "ref \<Rightarrow> FontFace"

text \<open>
  \<open>String.prototype.charCodeAt\<close>: the index is truncated to an integer (NaN counts
  as 0), and the result is NaN outside the string.
\<close>

fun js_charCodeAt :: "string \<Rightarrow> jsnum \<Rightarrow> jsnum" where
  "js_charCodeAt s (Num x) =
     (let p = (if 0 \<le> x then \<lfloor>x\<rfloor> else \<lceil>x\<rceil>)
      in if 0 \<le> p \<and> p < int (length s) then Num (of_nat (of_char (s ! nat p))) else NaN)"
| "js_charCodeAt s NaN = (case s of [] \<Rightarrow> NaN | c # cs \<Rightarrow> Num (of_nat (of_char c)))"
| "js_charCodeAt s a = NaN"

definition Label_string :: "label_world \<Rightarrow> string" where
  "Label_string l = (case l_text l of TextObject r \<Rightarrow> t_text (texts l r) | StringValue s \<Rightarrow> s)"

definition Label_charCodeAt :: "jsnum \<Rightarrow> label_world \<Rightarrow> jsnum" where
  "Label_charCodeAt index l = js_charCodeAt (Label_string l) index"

definition Label_length :: "label_world \<Rightarrow> jsnum" where
  "Label_length l = Num (of_nat (length (Label_string l)))"

text \<open>The glyph metric queries (label.ts, lines 79 to 103).\<close>

definition Label_kerningBefore :: "jsnum \<Rightarrow> label_world \<Rightarrow> jsnum" where
  "Label_kerningBefore index l =
     (if js_lt index (Num 1) \<or> js_gt index (Label_length l) then NaN
      else ff_kerning (fonts l (l_fontFace l))
             (Label_charCodeAt (js_sub index (Num 1)) l) (Label_charCodeAt index l))"

definition Label_kerningAfter :: "jsnum \<Rightarrow> label_world \<Rightarrow> jsnum" where
  "Label_kerningAfter index l =
     (if js_lt index (Num 0) \<or> js_gt index (js_sub (Label_length l) (Num 1)) then NaN
      else ff_kerning (fonts l (l_fontFace l))
             (Label_charCodeAt index l) (Label_charCodeAt (js_add index (Num 1)) l))"

definition Label_advance :: "jsnum \<Rightarrow> label_world \<Rightarrow> jsnum" where
  "Label_advance index l =
     (if js_lt index (Num 0) \<or> js_gt index (Label_length l) then NaN
      else ff_glyph_advance (fonts l (l_fontFace l)) (Label_charCodeAt index l))"

text \<open>The property setters (lines 109 to 226), each in the order of its statements.\<close>

definition Label_set_text :: "text_value \<Rightarrow> label_world \<Rightarrow> label_world" where
  "Label_set_text t l = l\<lparr>l_altered := ChangeLookup_alter Cat_text (l_altered l), l_text := t\<rparr>"

definition Label_set_wordWrap :: "bool \<Rightarrow> label_world \<Rightarrow> label_world" where
  "Label_set_wordWrap wrap l =
     (if l_wordWrap l = wrap then l
      else l\<lparr>l_altered := ChangeLookup_alter Cat_typesetting (l_altered l), l_wordWrap := wrap\<rparr>)"

definition Label_set_alignment :: "Alignment \<Rightarrow> label_world \<Rightarrow> label_world" where
  "Label_set_alignment alignment l =
     (if l_alignment l = alignment then l
      else l\<lparr>l_altered := ChangeLookup_alter Cat_typesetting (l_altered l),
             l_alignment := alignment\<rparr>)"

definition Label_set_lineAnchor :: "LineAnchor \<Rightarrow> label_world \<Rightarrow> label_world" where
  "Label_set_lineAnchor anchor l =
     (if l_lineAnchor l = anchor then l
      else l\<lparr>l_altered := ChangeLookup_alter Cat_typesetting (l_altered l),
             l_lineAnchor := anchor\<rparr>)"

definition Label_set_fontFace :: "ref \<Rightarrow> label_world \<Rightarrow> label_world" where
  "Label_set_fontFace fontFace l =
     (if l_fontFace l = fontFace then l
      else l\<lparr>l_altered := ChangeLookup_alter Cat_resources
                            (ChangeLookup_alter Cat_typesetting (l_altered l)),
             l_fontFace := fontFace\<rparr>)"

definition Label_set_color :: "Color \<Rightarrow> label_world \<Rightarrow> label_world" where
  "Label_set_color color l =
     (if Color_equals (l_color l) color then l
      else l\<lparr>l_altered := ChangeLookup_alter Cat_color (l_altered l), l_color := color\<rparr>)"

definition Label_set_backgroundColor :: "Color \<Rightarrow> label_world \<Rightarrow> label_world" where
  "Label_set_backgroundColor color l =
     (if Color_equals (l_backgroundColor l) color then l
      else l\<lparr>l_altered := ChangeLookup_alter Cat_color (l_altered l),
             l_backgroundColor := color\<rparr>)"

text \<open>
  The getter \<open>altered\<close> and \<open>reset\<close> (lines 239 to 248). The getter is given with the
  state it leaves, so that what it leaves untouched can be stated.
\<close>

definition Label_get_altered :: "label_world \<Rightarrow> bool \<times> label_world" where
  "Label_get_altered l =
     (alt_any (l_altered l) \<or>
        (case l_text l of TextObject r \<Rightarrow> t_altered (texts l r) | StringValue s \<Rightarrow> False), l)"

definition Label_reset :: "label_world \<Rightarrow> label_world" where
  "Label_reset l = l\<lparr>l_altered := ChangeLookup_reset (l_altered l)\<rparr>"

section \<open>Example states\<close>

text \<open>
  A pipeline that cannot accumulate in floating point and falls back to bytes, and a
  canvas on an element of 801 by 600 pixels as its constructor leaves it without data
  attributes: no renderer bound, the controller blocked, scale 1. The record of calls
  and messages starts empty.
\<close>

definition byte_renderer :: Renderer where
  "byte_renderer =
     \<lparr>r_initialized = False, r_frameSize = (Num 1, Num 1), r_clearColor = (0, 0, 0, 0),
      r_framePrecision = P_auto, r_debugTexture = 0,
      r_supported = (\<lambda>p. if p = P_float then P_byte else p)\<rparr>"

definition fresh_canvas :: world where
  "fresh_canvas =
     \<lparr>ctl_blocked = True, ctl_controllable = None, c_renderer = None,
      c_clearColor = Color (203 / 1000, 227 / 1000, 1 / 4, 1),
      c_framePrecision = P_auto, c_framePrecisionSubject = Some P_auto,
      c_size = (Num 801, Num 600), c_sizeSubject = Some (Num 801, Num 600),
      c_frameScale = (Num 1, Num 1), c_frameScaleSubject = Some (Num 1, Num 1),
      c_frameSize = (Num 801, Num 600), c_frameSizeSubject = Some (Num 801, Num 600),
      c_favorSizeOverScale = False,
      el_size = (Num 801, Num 600), el_width = Num 801, el_height = Num 600,
      heap = (\<lambda>r. byte_renderer), calls = [], console = []\<rparr>"

text \<open>
  The same canvas after \<open>bind\<close> of the renderer at address 0.
\<close>

definition bound_canvas :: world where
  "bound_canvas =
     fresh_canvas\<lparr>ctl_blocked := False, ctl_controllable := Some 0, c_renderer := Some 0,
       heap := (\<lambda>r. byte_renderer)
         (0 := \<lparr>r_initialized = True, r_frameSize = (Num 801, Num 600),
                r_clearColor = (203 / 1000, 227 / 1000, 1 / 4, 1),
                r_framePrecision = P_auto, r_debugTexture = - 1,
                r_supported = (\<lambda>p. if p = P_float then P_byte else p)\<rparr>),
       calls := [Call_initialize 0, Call_set_frameSize 0 (Num 801, Num 600),
                 Call_set_clearColor 0 (203 / 1000, 227 / 1000, 1 / 4, 1),
                 Call_set_framePrecision 0 P_auto, Call_set_debugTexture 0 (- 1),
                 Call_set_controllable (Some 0), Call_unblock]\<rparr>"

text \<open>
  The fresh canvas after float was requested as frame precision.
\<close>

definition float_canvas :: world where
  "float_canvas =
     fresh_canvas\<lparr>c_framePrecision := P_float, c_framePrecisionSubject := Some P_float\<rparr>"

text \<open>
  A label on the string \<open>ab\<close>, and the same label on a shared text object that has
  been altered; the font faces at all addresses have the same metrics.
\<close>

definition plain_face :: FontFace where
  "plain_face = \<lparr>ff_kerning = (\<lambda>a b. Num 0), ff_glyph_advance = (\<lambda>c. Num 1)\<rparr>"

definition string_label :: label_world where
  "string_label =
     \<lparr>l_text = StringValue ''ab'', l_wordWrap = False, l_alignment = Alignment_Left,
      l_lineAnchor = LineAnchor_Baseline, l_lineWidth = Num 0, l_fontFace = 0,
      l_color = Color (0, 0, 0, 1), l_backgroundColor = Color (1, 1, 1, 1),
      l_altered = \<lparr>alt_any = False, alt_color = False, alt_resources = False,
                    alt_text = False, alt_typesetting = False, alt_transformation = False\<rparr>,
      texts = (\<lambda>r. \<lparr>t_text = ''ab'', t_altered = True\<rparr>),
      fonts = (\<lambda>r. plain_face)\<rparr>"

definition shared_label :: label_world where
  "shared_label = string_label\<lparr>l_text := TextObject 0\<rparr>"

section \<open>What each helper changes\<close>

text \<open>
  For every helper of the canvas, the fields it leaves as they are and the ones it
  sets. The proofs below use these equations and keep the helpers folded.
\<close>

lemma log_if_fields [simp]:
  "c_size (log_if b l m w) = c_size w"
  "c_renderer (log_if b l m w) = c_renderer w"
  "c_frameSize (log_if b l m w) = c_frameSize w"
  "c_frameScale (log_if b l m w) = c_frameScale w"
  "c_favorSizeOverScale (log_if b l m w) = c_favorSizeOverScale w"
  "c_framePrecision (log_if b l m w) = c_framePrecision w"
  "c_clearColor (log_if b l m w) = c_clearColor w"
  "el_size (log_if b l m w) = el_size w"
  "calls (log_if b l m w) = calls w"
  "heap (log_if b l m w) = heap w"
  "ctl_blocked (log_if b l m w) = ctl_blocked w"
  "ctl_controllable (log_if b l m w) = ctl_controllable w"
  "console (log_if b l m w) = (if b then console w @ [(l, m)] else console w)"
  by (simp_all add: log_if_def)

lemma frameScaleNext_fields [simp]:
  "c_size (frameScaleNext w) = c_size w"
  "c_renderer (frameScaleNext w) = c_renderer w"
  "c_frameSize (frameScaleNext w) = c_frameSize w"
  "c_frameScale (frameScaleNext w) = c_frameScale w"
  "c_favorSizeOverScale (frameScaleNext w) = c_favorSizeOverScale w"
  "c_framePrecision (frameScaleNext w) = c_framePrecision w"
  "c_clearColor (frameScaleNext w) = c_clearColor w"
  "el_size (frameScaleNext w) = el_size w"
  "calls (frameScaleNext w) = calls w"
  "heap (frameScaleNext w) = heap w"
  "ctl_blocked (frameScaleNext w) = ctl_blocked w"
  "ctl_controllable (frameScaleNext w) = ctl_controllable w"
  "console (frameScaleNext w) = console w"
  by (simp_all add: frameScaleNext_def)

lemma frameSizeNext_fields [simp]:
  "c_size (frameSizeNext w) = c_size w"
  "c_renderer (frameSizeNext w) = c_renderer w"
  "c_frameSize (frameSizeNext w) = c_frameSize w"
  "c_frameScale (frameSizeNext w) = c_frameScale w"
  "c_favorSizeOverScale (frameSizeNext w) = c_favorSizeOverScale w"
  "c_framePrecision (frameSizeNext w) = c_framePrecision w"
  "c_clearColor (frameSizeNext w) = c_clearColor w"
  "el_size (frameSizeNext w) = el_size w"
  "calls (frameSizeNext w) = calls w"
  "heap (frameSizeNext w) = heap w"
  "ctl_blocked (frameSizeNext w) = ctl_blocked w"
  "ctl_controllable (frameSizeNext w) = ctl_controllable w"
  "console (frameSizeNext w) = console w"
  by (simp_all add: frameSizeNext_def)

lemma sizeNext_fields [simp]:
  "c_size (sizeNext w) = c_size w"
  "c_renderer (sizeNext w) = c_renderer w"
  "c_frameSize (sizeNext w) = c_frameSize w"
  "c_frameScale (sizeNext w) = c_frameScale w"
  "c_favorSizeOverScale (sizeNext w) = c_favorSizeOverScale w"
  "c_framePrecision (sizeNext w) = c_framePrecision w"
  "c_clearColor (sizeNext w) = c_clearColor w"
  "el_size (sizeNext w) = el_size w"
  "calls (sizeNext w) = calls w"
  "heap (sizeNext w) = heap w"
  "ctl_blocked (sizeNext w) = ctl_blocked w"
  "ctl_controllable (sizeNext w) = ctl_controllable w"
  "console (sizeNext w) = console w"
  by (simp_all add: sizeNext_def)

lemma framePrecisionNext_fields [simp]:
  "c_size (framePrecisionNext w) = c_size w"
  "c_renderer (framePrecisionNext w) = c_renderer w"
  "c_frameSize (framePrecisionNext w) = c_frameSize w"
  "c_frameScale (framePrecisionNext w) = c_frameScale w"
  "c_favorSizeOverScale (framePrecisionNext w) = c_favorSizeOverScale w"
  "c_framePrecision (framePrecisionNext w) = c_framePrecision w"
  "c_clearColor (framePrecisionNext w) = c_clearColor w"
  "el_size (framePrecisionNext w) = el_size w"
  "calls (framePrecisionNext w) = calls w"
  "heap (framePrecisionNext w) = heap w"
  "ctl_blocked (framePrecisionNext w) = ctl_blocked w"
  "ctl_controllable (framePrecisionNext w) = ctl_controllable w"
  "console (framePrecisionNext w) = console w"
  by (simp_all add: framePrecisionNext_def)

lemma retrieveSize_fields [simp]:
  "c_size (retrieveSize w) = el_size w"
  "c_renderer (retrieveSize w) = c_renderer w"
  "c_frameSize (retrieveSize w) = c_frameSize w"
  "c_frameScale (retrieveSize w) = c_frameScale w"
  "c_favorSizeOverScale (retrieveSize w) = c_favorSizeOverScale w"
  "c_framePrecision (retrieveSize w) = c_framePrecision w"
  "c_clearColor (retrieveSize w) = c_clearColor w"
  "el_size (retrieveSize w) = el_size w"
  "calls (retrieveSize w) = calls w"
  "heap (retrieveSize w) = heap w"
  "ctl_blocked (retrieveSize w) = ctl_blocked w"
  "ctl_controllable (retrieveSize w) = ctl_controllable w"
  "console (retrieveSize w) = console w"
  by (simp_all add: retrieveSize_def sizeNext_def)

lemma Controller_block_fields [simp]:
  "c_size (Controller_block w) = c_size w"
  "c_renderer (Controller_block w) = c_renderer w"
  "c_frameSize (Controller_block w) = c_frameSize w"
  "c_frameScale (Controller_block w) = c_frameScale w"
  "c_favorSizeOverScale (Controller_block w) = c_favorSizeOverScale w"
  "c_framePrecision (Controller_block w) = c_framePrecision w"
  "c_clearColor (Controller_block w) = c_clearColor w"
  "el_size (Controller_block w) = el_size w"
  "calls (Controller_block w) = calls w @ [Call_block]"
  "heap (Controller_block w) = heap w"
  "ctl_blocked (Controller_block w) = True"
  "ctl_controllable (Controller_block w) = ctl_controllable w"
  "console (Controller_block w) = console w"
  by (simp_all add: Controller_block_def)

lemma Controller_unblock_fields [simp]:
  "c_size (Controller_unblock w) = c_size w"
  "c_renderer (Controller_unblock w) = c_renderer w"
  "c_frameSize (Controller_unblock w) = c_frameSize w"
  "c_frameScale (Controller_unblock w) = c_frameScale w"
  "c_favorSizeOverScale (Controller_unblock w) = c_favorSizeOverScale w"
  "c_framePrecision (Controller_unblock w) = c_framePrecision w"
  "c_clearColor (Controller_unblock w) = c_clearColor w"
  "el_size (Controller_unblock w) = el_size w"
  "calls (Controller_unblock w) = calls w @ [Call_unblock]"
  "heap (Controller_unblock w) = heap w"
  "ctl_blocked (Controller_unblock w) = False"
  "ctl_controllable (Controller_unblock w) = ctl_controllable w"
  "console (Controller_unblock w) = console w"
  by (simp_all add: Controller_unblock_def)

lemma Controller_set_controllable_fields [simp]:
  "c_size (Controller_set_controllable c w) = c_size w"
  "c_renderer (Controller_set_controllable c w) = c_renderer w"
  "c_frameSize (Controller_set_controllable c w) = c_frameSize w"
  "c_frameScale (Controller_set_controllable c w) = c_frameScale w"
  "c_favorSizeOverScale (Controller_set_controllable c w) = c_favorSizeOverScale w"
  "c_framePrecision (Controller_set_controllable c w) = c_framePrecision w"
  "c_clearColor (Controller_set_controllable c w) = c_clearColor w"
  "el_size (Controller_set_controllable c w) = el_size w"
  "calls (Controller_set_controllable c w) = calls w @ [Call_set_controllable c]"
  "heap (Controller_set_controllable c w) = heap w"
  "ctl_blocked (Controller_set_controllable c w) = ctl_blocked w"
  "ctl_controllable (Controller_set_controllable c w) = c"
  "console (Controller_set_controllable c w) = console w"
  by (simp_all add: Controller_set_controllable_def)

lemma Renderer_set_frameSize_fields [simp]:
  "c_size (Renderer_set_frameSize r v w) = c_size w"
  "c_renderer (Renderer_set_frameSize r v w) = c_renderer w"
  "c_frameSize (Renderer_set_frameSize r v w) = c_frameSize w"
  "c_frameScale (Renderer_set_frameSize r v w) = c_frameScale w"
  "c_favorSizeOverScale (Renderer_set_frameSize r v w) = c_favorSizeOverScale w"
  "c_framePrecision (Renderer_set_frameSize r v w) = c_framePrecision w"
  "c_clearColor (Renderer_set_frameSize r v w) = c_clearColor w"
  "el_size (Renderer_set_frameSize r v w) = el_size w"
  "calls (Renderer_set_frameSize r v w) = calls w @ [Call_set_frameSize r v]"
  "heap (Renderer_set_frameSize r v w) = (heap w)(r := (heap w r)\<lparr>r_frameSize := v\<rparr>)"
  "ctl_blocked (Renderer_set_frameSize r v w) = ctl_blocked w"
  "ctl_controllable (Renderer_set_frameSize r v w) = ctl_controllable w"
  "console (Renderer_set_frameSize r v w) = console w"
  by (simp_all add: Renderer_set_frameSize_def)

lemma Renderer_set_clearColor_fields [simp]:
  "c_size (Renderer_set_clearColor r v w) = c_size w"
  "c_renderer (Renderer_set_clearColor r v w) = c_renderer w"
  "c_frameSize (Renderer_set_clearColor r v w) = c_frameSize w"
  "c_frameScale (Renderer_set_clearColor r v w) = c_frameScale w"
  "c_favorSizeOverScale (Renderer_set_clearColor r v w) = c_favorSizeOverScale w"
  "c_framePrecision (Renderer_set_clearColor r v w) = c_framePrecision w"
  "c_clearColor (Renderer_set_clearColor r v w) = c_clearColor w"
  "el_size (Renderer_set_clearColor r v w) = el_size w"
  "calls (Renderer_set_clearColor r v w) = calls w @ [Call_set_clearColor r v]"
  "heap (Renderer_set_clearColor r v w) = (heap w)(r := (heap w r)\<lparr>r_clearColor := v\<rparr>)"
  "ctl_blocked (Renderer_set_clearColor r v w) = ctl_blocked w"
  "ctl_controllable (Renderer_set_clearColor r v w) = ctl_controllable w"
  "console (Renderer_set_clearColor r v w) = console w"
  by (simp_all add: Renderer_set_clearColor_def)

lemma Renderer_set_framePrecision_fields [simp]:
  "c_size (Renderer_set_framePrecision r p w) = c_size w"
  "c_renderer (Renderer_set_framePrecision r p w) = c_renderer w"
  "c_frameSize (Renderer_set_framePrecision r p w) = c_frameSize w"
  "c_frameScale (Renderer_set_framePrecision r p w) = c_frameScale w"
  "c_favorSizeOverScale (Renderer_set_framePrecision r p w) = c_favorSizeOverScale w"
  "c_framePrecision (Renderer_set_framePrecision r p w) = c_framePrecision w"
  "c_clearColor (Renderer_set_framePrecision r p w) = c_clearColor w"
  "el_size (Renderer_set_framePrecision r p w) = el_size w"
  "calls (Renderer_set_framePrecision r p w) = calls w @ [Call_set_framePrecision r p]"
  "heap (Renderer_set_framePrecision r p w) = (heap w)(r := (heap w r)\<lparr>r_framePrecision := r_supported (heap w r) p\<rparr>)"
  "ctl_blocked (Renderer_set_framePrecision r p w) = ctl_blocked w"
  "ctl_controllable (Renderer_set_framePrecision r p w) = ctl_controllable w"
  "console (Renderer_set_framePrecision r p w) = console w"
  by (simp_all add: Renderer_set_framePrecision_def)

lemma Renderer_set_debugTexture_fields [simp]:
  "c_size (Renderer_set_debugTexture r v w) = c_size w"
  "c_renderer (Renderer_set_debugTexture r v w) = c_renderer w"
  "c_frameSize (Renderer_set_debugTexture r v w) = c_frameSize w"
  "c_frameScale (Renderer_set_debugTexture r v w) = c_frameScale w"
  "c_favorSizeOverScale (Renderer_set_debugTexture r v w) = c_favorSizeOverScale w"
  "c_framePrecision (Renderer_set_debugTexture r v w) = c_framePrecision w"
  "c_clearColor (Renderer_set_debugTexture r v w) = c_clearColor w"
  "el_size (Renderer_set_debugTexture r v w) = el_size w"
  "calls (Renderer_set_debugTexture r v w) = calls w @ [Call_set_debugTexture r v]"
  "heap (Renderer_set_debugTexture r v w) = (heap w)(r := (heap w r)\<lparr>r_debugTexture := v\<rparr>)"
  "ctl_blocked (Renderer_set_debugTexture r v w) = ctl_blocked w"
  "ctl_controllable (Renderer_set_debugTexture r v w) = ctl_controllable w"
  "console (Renderer_set_debugTexture r v w) = console w"
  by (simp_all add: Renderer_set_debugTexture_def)

lemma Renderer_uninitialize_fields [simp]:
  "c_size (Renderer_uninitialize r w) = c_size w"
  "c_renderer (Renderer_uninitialize r w) = c_renderer w"
  "c_frameSize (Renderer_uninitialize r w) = c_frameSize w"
  "c_frameScale (Renderer_uninitialize r w) = c_frameScale w"
  "c_favorSizeOverScale (Renderer_uninitialize r w) = c_favorSizeOverScale w"
  "c_framePrecision (Renderer_uninitialize r w) = c_framePrecision w"
  "c_clearColor (Renderer_uninitialize r w) = c_clearColor w"
  "el_size (Renderer_uninitialize r w) = el_size w"
  "calls (Renderer_uninitialize r w) = calls w @ [Call_uninitialize r]"
  "heap (Renderer_uninitialize r w) = (heap w)(r := (heap w r)\<lparr>r_initialized := False\<rparr>)"
  "ctl_blocked (Renderer_uninitialize r w) = ctl_blocked w"
  "ctl_controllable (Renderer_uninitialize r w) = ctl_controllable w"
  "console (Renderer_uninitialize r w) = console w"
  by (simp_all add: Renderer_uninitialize_def)

section \<open>Rounding to a binary format\<close>

lemma floor_log2_nonneg: "0 \<le> floor_log2 n"
proof (induction n rule: floor_log2.induct)
  case (1 n)
  then show ?case by (subst floor_log2.simps) simp
qed

lemma floor_log2_bounds:
  "1 \<le> n \<Longrightarrow> 2 ^ nat (floor_log2 n) \<le> n \<and> n < 2 * 2 ^ nat (floor_log2 n)"
proof (induction n rule: floor_log2.induct)
  case (1 n)
  show ?case
  proof (cases "n < 2")
    case True
    with 1(2) have "n = 1" by simp
    then show ?thesis by (simp add: floor_log2.simps)
  next
    case False
    then have m: "1 \<le> n div 2" by simp
    have ih: "2 ^ nat (floor_log2 (n div 2)) \<le> n div 2"
      "n div 2 < 2 * 2 ^ nat (floor_log2 (n div 2))"
      using 1(1)[OF False m] by simp_all
    have fl: "floor_log2 n = 1 + floor_log2 (n div 2)"
      using False by (subst floor_log2.simps) simp
    have pw: "(2::int) ^ nat (floor_log2 n) = 2 * 2 ^ nat (floor_log2 (n div 2))"
      unfolding fl using floor_log2_nonneg[of "n div 2"] by (simp add: nat_add_distrib)
    show ?thesis unfolding pw using ih by linarith
  qed
qed

lemma powi_nonneg: "0 \<le> k \<Longrightarrow> (2::rat) powi k = 2 ^ nat k"
  by (simp add: power_int_def)

lemma powi_succ: "(2::rat) powi (k + 1) = 2 * 2 powi k"
  by (simp add: power_int_add)

lemma floor_log2_rat:
  assumes "1 \<le> n"
  shows "(2::rat) powi floor_log2 n \<le> of_int n"
    and "of_int n + 1 \<le> 2 * (2::rat) powi floor_log2 n"
proof -
  define k where "k = nat (floor_log2 n)"
  have p: "(2::rat) powi floor_log2 n = 2 ^ k"
    unfolding k_def by (rule powi_nonneg) (rule floor_log2_nonneg)
  have b: "2 ^ k \<le> n" "n + 1 \<le> 2 * 2 ^ k"
    using floor_log2_bounds[OF assms] by (simp_all add: k_def)
  have "(of_int (2 ^ k) :: rat) \<le> of_int n" using b(1) by (simp only: of_int_le_iff)
  then show "(2::rat) powi floor_log2 n \<le> of_int n" by (simp add: p)
  have "(of_int (n + 1) :: rat) \<le> of_int (2 * 2 ^ k)" using b(2) by (simp only: of_int_le_iff)
  then show "of_int n + 1 \<le> 2 * (2::rat) powi floor_log2 n" by (simp add: p)
qed

lemma exponent_of_bounds:
  assumes "0 < x"
  shows "2 powi exponent_of x \<le> x" and "x < 2 powi (exponent_of x + 1)"
proof -
  have "2 powi exponent_of x \<le> x \<and> x < 2 powi (exponent_of x + 1)"
  proof (cases "1 \<le> x")
    case True
    then have n: "1 \<le> \<lfloor>x\<rfloor>" by simp
    have e: "exponent_of x = floor_log2 \<lfloor>x\<rfloor>" using True by (simp add: exponent_of_def)
    note b = floor_log2_rat[OF n]
    have f: "of_int \<lfloor>x\<rfloor> \<le> x" "x < of_int \<lfloor>x\<rfloor> + 1"
      using floor_correct[of x] by simp_all
    show ?thesis unfolding e powi_succ using b f by linarith
  next
    case False
    define y where "y = 1 / x"
    have y1: "1 < y" using False assms by (simp add: y_def)
    define m where "m = \<lceil>y\<rceil> - 1"
    have "2 \<le> \<lceil>y\<rceil>" using y1 by (simp add: le_ceiling_iff)
    then have m1: "1 \<le> m" by (simp add: m_def)
    define k where "k = floor_log2 m"
    have e: "exponent_of x = - 1 - k" using False by (simp add: exponent_of_def k_def m_def y_def)
    note b = floor_log2_rat[OF m1, folded k_def]
    have my: "of_int m < y" "y \<le> of_int m + 1"
      using ceiling_correct[of y] by (simp_all add: m_def)
    have yu: "y \<le> 2 * 2 powi k" using b(2) my(2) by linarith
    have yl: "2 powi k < y" using b(1) my(1) by linarith
    have pk: "(0::rat) < 2 powi k" by simp
    have x: "x = 1 / y" using assms by (simp add: y_def)
    have lo: "2 powi (- 1 - k) \<le> x"
    proof -
      have "2 powi (- 1 - k) = 1 / (2 * 2 powi k :: rat)"
        by (simp add: power_int_diff power_int_minus field_simps)
      also have "\<dots> \<le> 1 / y" using yu y1 pk by (intro divide_left_mono) auto
      finally show ?thesis by (simp add: x)
    qed
    have hi: "x < 2 powi (- 1 - k + 1)"
    proof -
      have "1 / y < 1 / (2 powi k :: rat)" using yl pk y1 by (simp add: frac_less2)
      also have "\<dots> = 2 powi (- 1 - k + 1)" by (simp add: power_int_minus field_simps)
      finally show ?thesis by (simp add: x)
    qed
    show ?thesis unfolding e using lo hi by simp
  qed
  then show "2 powi exponent_of x \<le> x" and "x < 2 powi (exponent_of x + 1)" by simp_all
qed

lemma powi_less_cancel: "(2::rat) powi a < 2 powi b \<Longrightarrow> a < b"
  using power_int_increasing[of b a "2::rat"] by (cases "a < b") auto

lemma powi_le_cancel: "(2::rat) powi a \<le> 2 powi b \<Longrightarrow> a \<le> b"
  using power_int_strict_increasing[of b a "2::rat"] by (cases "a \<le> b") auto

lemma powi_split: "(2::rat) powi (a + b) = 2 powi a * 2 powi b"
  by (simp add: power_int_add)

lemma powi_quot: "(2::rat) powi a / 2 powi b = 2 powi (a - b)"
  by (simp add: power_int_diff)

lemma powi_int: "0 \<le> k \<Longrightarrow> (2::rat) powi k = of_int (2 ^ nat k)"
  by (simp add: power_int_def)

lemma rhe_bounds: "\<bar>of_int (round_half_even x) - x\<bar> \<le> 1 / 2"
  unfolding round_half_even_def Let_def using floor_correct[of x] by (auto simp: abs_le_iff)

lemma rhe_of_int: "round_half_even (of_int k) = k"
  by (simp add: round_half_even_def)

lemma rhe_floor: "\<lfloor>x\<rfloor> \<le> round_half_even x" "round_half_even x \<le> \<lfloor>x\<rfloor> + 1"
  by (simp_all add: round_half_even_def Let_def)

lemma rhe_mono:
  assumes "x \<le> y"
  shows "round_half_even x \<le> round_half_even y"
proof (cases "\<lfloor>x\<rfloor> < \<lfloor>y\<rfloor>")
  case True
  then show ?thesis using rhe_floor(2)[of x] rhe_floor(1)[of y] by linarith
next
  case False
  then have eq: "\<lfloor>x\<rfloor> = \<lfloor>y\<rfloor>" using floor_mono[OF assms] by simp
  show ?thesis unfolding round_half_even_def Let_def eq using assms by auto
qed

lemma round_binary_pos:
  assumes "0 < x"
  shows "round_binary p emin x =
    of_int (round_half_even (x / 2 powi (max (exponent_of x) emin - int p + 1)))
      * 2 powi (max (exponent_of x) emin - int p + 1)"
  using assms by (simp add: round_binary_def Let_def)

lemma round_binary_0: "round_binary p emin 0 = 0"
  by (simp add: round_binary_def)

lemma round_binary_error:
  assumes x: "0 < x" and n: "2 powi emin \<le> x"
  shows "\<bar>round_binary p emin x - x\<bar> \<le> x * 2 powi (- int p)"
proof -
  define e where "e = exponent_of x"
  note b = exponent_of_bounds[OF x, folded e_def]
  have "(2::rat) powi emin < 2 powi (e + 1)" using n b(2) by linarith
  then have "emin \<le> e" using powi_less_cancel[of emin "e + 1"] by simp
  then have m: "max e emin = e" by simp
  define q :: rat where "q = 2 powi (e - int p + 1)"
  have q0: "0 < q" by (simp add: q_def)
  have r: "round_binary p emin x = of_int (round_half_even (x / q)) * q"
    unfolding round_binary_pos[OF x] q_def e_def[symmetric] m ..
  have "round_binary p emin x - x = (of_int (round_half_even (x / q)) - x / q) * q"
    unfolding r using q0 by (simp add: field_simps)
  then have "\<bar>round_binary p emin x - x\<bar> = \<bar>of_int (round_half_even (x / q)) - x / q\<bar> * q"
    using q0 by (simp add: abs_mult)
  also have "\<dots> \<le> 1 / 2 * q" using rhe_bounds[of "x / q"] q0 by (intro mult_right_mono) auto
  also have "1 / 2 * q = 2 powi e * 2 powi (- int p)"
    unfolding q_def by (simp add: power_int_add power_int_diff power_int_minus field_simps)
  also have "\<dots> \<le> x * 2 powi (- int p)" using b(1) by (intro mult_right_mono) auto
  finally show ?thesis .
qed

lemma round_binary_upper:
  assumes x: "0 < x"
  shows "round_binary p emin x \<le> 2 powi (max (exponent_of x) emin + 1)"
proof -
  define e where "e = max (exponent_of x) emin"
  define q :: rat where "q = 2 powi (e - int p + 1)"
  have q0: "0 < q" by (simp add: q_def)
  have r: "round_binary p emin x = of_int (round_half_even (x / q)) * q"
    unfolding round_binary_pos[OF x] q_def e_def ..
  have "x < 2 powi (exponent_of x + 1)" by (rule exponent_of_bounds[OF x])
  also have "\<dots> \<le> 2 powi (e + 1)" by (intro power_int_increasing) (simp_all add: e_def)
  finally have xe: "x \<le> 2 powi (e + 1)" by simp
  have pq: "(2::rat) powi (e + 1) = of_int (2 ^ p) * q"
    unfolding q_def by (simp add: power_int_add power_int_diff field_simps)
  have "x / q \<le> of_int (2 ^ p)" using xe q0 unfolding pq by (simp add: field_simps)
  then have "round_half_even (x / q) \<le> 2 ^ p"
    using rhe_mono[of "x / q" "of_int (2 ^ p)"] by (simp only: rhe_of_int)
  then have "(of_int (round_half_even (x / q)) :: rat) \<le> of_int (2 ^ p)"
    by (simp only: of_int_le_iff)
  then have "of_int (round_half_even (x / q)) * q \<le> of_int (2 ^ p) * q"
    using q0 by (intro mult_right_mono) auto
  then show ?thesis unfolding r pq[symmetric] e_def .
qed

lemma round_binary_lower:
  assumes x: "0 < x" and n: "emin \<le> exponent_of x" and p: "1 \<le> p"
  shows "2 powi exponent_of x \<le> round_binary p emin x"
proof -
  define e where "e = exponent_of x"
  have m: "max e emin = e" using n by (simp add: e_def)
  define q :: rat where "q = 2 powi (e - int p + 1)"
  have q0: "0 < q" by (simp add: q_def)
  have r: "round_binary p emin x = of_int (round_half_even (x / q)) * q"
    unfolding round_binary_pos[OF x] q_def e_def[symmetric] m ..
  have xe: "2 powi e \<le> x" unfolding e_def by (rule exponent_of_bounds[OF x])
  obtain p' where p': "p = Suc p'" using p by (cases p) auto
  have pq: "(2::rat) powi e = of_int (2 ^ p') * q"
    unfolding q_def p' by (simp add: power_int_add power_int_diff field_simps)
  have "of_int (2 ^ p') \<le> x / q" using xe q0 unfolding pq by (simp add: field_simps)
  then have "2 ^ p' \<le> round_half_even (x / q)"
    using rhe_mono[of "of_int (2 ^ p')" "x / q"] by (simp only: rhe_of_int)
  then have "(of_int (2 ^ p') :: rat) \<le> of_int (round_half_even (x / q))"
    by (simp only: of_int_le_iff)
  then have "of_int (2 ^ p') * q \<le> of_int (round_half_even (x / q)) * q"
    using q0 by (intro mult_right_mono) auto
  then show ?thesis unfolding r pq[symmetric] e_def .
qed

lemma round_binary_nonneg:
  assumes "0 \<le> x"
  shows "0 \<le> round_binary p emin x"
proof (cases "x = 0")
  case True
  then show ?thesis by (simp add: round_binary_0)
next
  case False
  then have x: "0 < x" using assms by simp
  define q :: rat where "q = 2 powi (max (exponent_of x) emin - int p + 1)"
  have q0: "0 < q" by (simp add: q_def)
  have "0 \<le> x / q" using x q0 by simp
  moreover have "round_half_even 0 = 0" by (simp add: round_half_even_def)
  ultimately have "0 \<le> round_half_even (x / q)"
    using rhe_mono[of 0 "x / q"] by simp
  then show ?thesis unfolding round_binary_pos[OF x] q_def[symmetric] using q0 by simp
qed

lemma exponent_of_mono:
  assumes "0 < x" "x \<le> y"
  shows "exponent_of x \<le> exponent_of y"
proof -
  have y: "0 < y" using assms by simp
  have "2 powi exponent_of x \<le> x" by (rule exponent_of_bounds[OF assms(1)])
  also have "x \<le> y" by fact
  also have "y < 2 powi (exponent_of y + 1)" by (rule exponent_of_bounds[OF y])
  finally show ?thesis using powi_less_cancel[of "exponent_of x" "exponent_of y + 1"] by simp
qed

lemma round_binary_mono:
  assumes x: "0 \<le> x" and le: "x \<le> y" and p: "1 \<le> p"
  shows "round_binary p emin x \<le> round_binary p emin y"
proof (cases "x = 0")
  case True
  then show ?thesis using round_binary_nonneg[of y p emin] x le by (simp add: round_binary_0)
next
  case False
  then have x0: "0 < x" using x by simp
  then have y0: "0 < y" using le by simp
  define ex where "ex = max (exponent_of x) emin"
  define ey where "ey = max (exponent_of y) emin"
  have exy: "ex \<le> ey" using exponent_of_mono[OF x0 le] by (simp add: ex_def ey_def)
  show ?thesis
  proof (cases "ex = ey")
    case True
    define q :: rat where "q = 2 powi (ey - int p + 1)"
    have q0: "0 < q" by (simp add: q_def)
    have "x / q \<le> y / q" using le q0 by (simp add: divide_right_mono)
    then have "round_half_even (x / q) \<le> round_half_even (y / q)" by (rule rhe_mono)
    then have "(of_int (round_half_even (x / q)) :: rat) \<le> of_int (round_half_even (y / q))"
      by (simp only: of_int_le_iff)
    then have "of_int (round_half_even (x / q)) * q \<le> of_int (round_half_even (y / q)) * q"
      using q0 by (intro mult_right_mono) auto
    then show ?thesis
      unfolding round_binary_pos[OF x0] round_binary_pos[OF y0] ex_def[symmetric] ey_def[symmetric]
        True q_def .
  next
    case False
    then have lt: "ex + 1 \<le> ey" using exy by simp
    have "emin \<le> ex" by (simp add: ex_def)
    then have "emin < ey" using lt by simp
    then have ey: "ey = exponent_of y" "emin \<le> exponent_of y" by (simp_all add: ey_def max_def split: if_splits)
    have "round_binary p emin x \<le> 2 powi (ex + 1)"
      unfolding ex_def by (rule round_binary_upper[OF x0])
    also have "\<dots> \<le> 2 powi ey" using lt by (intro power_int_increasing) simp_all
    also have "\<dots> \<le> round_binary p emin y"
      unfolding ey(1) by (rule round_binary_lower[OF y0 ey(2) p])
    finally show ?thesis .
  qed
qed

lemma round_binary_repr:
  assumes m: "0 < m" "m \<le> 2 ^ p" and j: "emin - int p + 1 \<le> j" and p: "1 \<le> p"
  shows "round_binary p emin (of_int m * 2 powi j) = of_int m * 2 powi j"
proof -
  define x :: rat where "x = of_int m * 2 powi j"
  have x0: "0 < x" using m(1) by (simp add: x_def)
  define e where "e = max (exponent_of x) emin"
  define q :: rat where "q = 2 powi (e - int p + 1)"
  have q0: "0 < q" by (simp add: q_def)
  have r: "round_binary p emin x = of_int (round_half_even (x / q)) * q"
    unfolding round_binary_pos[OF x0] q_def e_def ..
  have "\<exists>k. x / q = of_int k"
  proof (cases "m = 2 ^ p")
    case True
    then have xp: "x = 2 powi (int p + j)" by (simp add: x_def power_int_add)
    have "2 powi exponent_of x \<le> x" "x < 2 powi (exponent_of x + 1)"
      by (rule exponent_of_bounds[OF x0])+
    then have "exponent_of x \<le> int p + j" "int p + j < exponent_of x + 1"
      unfolding xp using powi_le_cancel powi_less_cancel by blast+
    then have "exponent_of x = int p + j" by simp
    then have e: "e = int p + j" using j by (simp add: e_def)
    obtain p' where p': "p = Suc p'" using p by (cases p) auto
    have "x / q = of_int (2 ^ p')"
      unfolding xp q_def e powi_quot p' by simp
    then show ?thesis ..
  next
    case False
    then have "m < 2 ^ p" using m(2) by simp
    then have "(of_int m :: rat) < of_int (2 ^ p)" by (simp only: of_int_less_iff)
    then have "(of_int m :: rat) < 2 powi int p" by simp
    then have "x < 2 powi int p * 2 powi j" unfolding x_def by (intro mult_strict_right_mono) auto
    then have xl: "x < 2 powi (int p + j)" by (simp add: power_int_add)
    have "2 powi exponent_of x \<le> x" by (rule exponent_of_bounds[OF x0])
    with xl have "(2::rat) powi exponent_of x < 2 powi (int p + j)" by linarith
    then have "exponent_of x < int p + j" by (rule powi_less_cancel)
    then have "e - int p + 1 \<le> j" using j by (simp add: e_def)
    then obtain d where d: "j = e - int p + 1 + int d"
      by (metis add.commute le_iff_add zle_iff_zadd)
    have "x / q = of_int (m * 2 ^ d)"
      unfolding x_def q_def d using q0 by (simp add: power_int_add)
    then show ?thesis ..
  qed
  then obtain k where k: "x / q = of_int k" ..
  have "round_binary p emin x = x / q * q" unfolding r k rhe_of_int ..
  then show ?thesis using q0 unfolding x_def[symmetric] by simp
qed

lemma round_binary_form:
  assumes x: "0 < x"
  shows "\<exists>M j. 0 \<le> M \<and> M \<le> 2 ^ p \<and> emin - int p + 1 \<le> j
    \<and> round_binary p emin x = of_int M * 2 powi j"
proof -
  define e where "e = max (exponent_of x) emin"
  define q :: rat where "q = 2 powi (e - int p + 1)"
  define M where "M = round_half_even (x / q)"
  have q0: "0 < q" by (simp add: q_def)
  have r: "round_binary p emin x = of_int M * q"
    unfolding round_binary_pos[OF x] q_def e_def M_def ..
  have "0 \<le> round_binary p emin x" using round_binary_nonneg[of x] x by simp
  then have M0: "0 \<le> M" unfolding r using q0 by (simp add: zero_le_mult_iff)
  have "round_binary p emin x \<le> 2 powi (e + 1)" unfolding e_def by (rule round_binary_upper[OF x])
  also have "\<dots> = of_int (2 ^ p) * q"
    unfolding q_def by (simp add: power_int_add power_int_diff field_simps)
  finally have "(of_int M :: rat) \<le> of_int (2 ^ p)" unfolding r using q0 by simp
  then have Mp: "M \<le> 2 ^ p" by (simp only: of_int_le_iff)
  have j: "emin - int p + 1 \<le> e - int p + 1" by (simp add: e_def)
  show ?thesis using M0 Mp j r unfolding q_def by blast
qed

lemma round_binary_idem:
  assumes x: "0 \<le> x" and p: "1 \<le> p"
  shows "round_binary p emin (round_binary p emin x) = round_binary p emin x"
proof (cases "x = 0")
  case True
  then show ?thesis by (simp add: round_binary_0)
next
  case False
  then have "0 < x" using x by simp
  from round_binary_form[OF this] obtain M j where
    M: "0 \<le> M" "M \<le> 2 ^ p" "emin - int p + 1 \<le> j" "round_binary p emin x = of_int M * 2 powi j"
    by blast
  show ?thesis
  proof (cases "M = 0")
    case True
    then show ?thesis unfolding M(4) by (simp add: round_binary_0)
  next
    case False
    then have "0 < M" using M(1) by simp
    then show ?thesis unfolding M(4) by (rule round_binary_repr[OF _ M(2) M(3) p])
  qed
qed

lemma round_binary_int:
  assumes "0 \<le> k" "k \<le> 2 ^ p" "emin \<le> int p - 1" "1 \<le> p"
  shows "round_binary p emin (of_int k) = of_int k"
proof (cases "k = 0")
  case True
  then show ?thesis by (simp add: round_binary_0)
next
  case False
  then have "0 < k" using assms(1) by simp
  then show ?thesis
    using round_binary_repr[of k p emin 0] assms by simp
qed

subsection \<open>Singles and doubles\<close>

lemma float32_0 [simp]: "float32 0 = 0"
  by (simp add: float32_def round_binary_0)

lemma float64_0 [simp]: "float64 0 = 0"
  by (simp add: float64_def round_binary_0)

lemma float32_of_int: "0 \<le> k \<Longrightarrow> k \<le> 2 ^ 24 \<Longrightarrow> float32 (of_int k) = of_int k"
  unfolding float32_def by (rule round_binary_int) simp_all

lemma float64_of_int: "0 \<le> k \<Longrightarrow> k \<le> 2 ^ 53 \<Longrightarrow> float64 (of_int k) = of_int k"
  unfolding float64_def by (rule round_binary_int) simp_all

lemma float32_1 [simp]: "float32 1 = 1"
  using float32_of_int[of 1] by simp

lemma float64_1 [simp]: "float64 1 = 1"
  using float64_of_int[of 1] by simp

lemma float32_top: "float32 (2 ^ 24) = 2 ^ 24"
  using float32_of_int[of "2 ^ 24"] by simp

lemma float64_top: "float64 (2 ^ 24) = 2 ^ 24"
  using float64_of_int[of "2 ^ 24"] by simp

lemma float32_mono: "0 \<le> x \<Longrightarrow> x \<le> y \<Longrightarrow> float32 x \<le> float32 y"
  unfolding float32_def by (rule round_binary_mono) simp_all

lemma float64_mono: "0 \<le> x \<Longrightarrow> x \<le> y \<Longrightarrow> float64 x \<le> float64 y"
  unfolding float64_def by (rule round_binary_mono) simp_all

lemma float32_nonneg: "0 \<le> x \<Longrightarrow> 0 \<le> float32 x"
  unfolding float32_def by (rule round_binary_nonneg)

lemma float64_nonneg: "0 \<le> x \<Longrightarrow> 0 \<le> float64 x"
  unfolding float64_def by (rule round_binary_nonneg)

lemma float32_idem: "0 \<le> x \<Longrightarrow> float32 (float32 x) = float32 x"
  unfolding float32_def by (rule round_binary_idem) simp_all

lemma float32_error: "1 / 2 ^ 126 \<le> x \<Longrightarrow> \<bar>float32 x - x\<bar> \<le> x / 2 ^ 24"
  using round_binary_error[of x "- 126" 24] by (simp add: float32_def power_int_minus field_simps)

lemma float64_error: "1 / 2 ^ 1022 \<le> x \<Longrightarrow> \<bar>float64 x - x\<bar> \<le> x / 2 ^ 53"
  using round_binary_error[of x "- 1022" 53] by (simp add: float64_def power_int_minus field_simps)

lemma binary32_finite:
  assumes "0 \<le> x" "x \<le> 2 ^ 24"
  shows "binary32 x = Num (float32 x)"
proof -
  have "0 \<le> float32 x" using assms(1) by (rule float32_nonneg)
  moreover have "float32 x \<le> 2 ^ 24" using float32_mono[OF assms] by (simp only: float32_top)
  ultimately show ?thesis by (simp add: binary32_def overflow_def)
qed

lemma binary64_finite:
  assumes "0 \<le> x" "x \<le> 2 ^ 24"
  shows "binary64 x = Num (float64 x)"
proof -
  have "0 \<le> float64 x" using assms(1) by (rule float64_nonneg)
  moreover have "float64 x \<le> 2 ^ 24" using float64_mono[OF assms] by (simp only: float64_top)
  ultimately show ?thesis by (simp add: binary64_def overflow_def)
qed

text \<open>
  A double in the range of the sizes a canvas has, stored as a single: the value of
  an element of a vec2 after gl-matrix wrote the result of an operation to it.
\<close>

lemma single_range:
  assumes "0 \<le> x" "x \<le> 2 ^ 24"
  shows "0 \<le> float32 (float64 x)" and "float32 (float64 x) \<le> 2 ^ 24"
proof -
  have a: "0 \<le> float64 x" using assms(1) by (rule float64_nonneg)
  have b: "float64 x \<le> 2 ^ 24" using float64_mono[OF assms] by (simp only: float64_top)
  show "0 \<le> float32 (float64 x)" using a by (rule float32_nonneg)
  show "float32 (float64 x) \<le> 2 ^ 24" using float32_mono[OF a b] by (simp only: float32_top)
qed

lemma single_mono:
  assumes "0 \<le> x" "x \<le> y"
  shows "float32 (float64 x) \<le> float32 (float64 y)"
  using assms by (intro float32_mono float64_mono float64_nonneg)

lemma single_of_int:
  assumes "0 \<le> k" "k \<le> 2 ^ 24"
  shows "float32 (float64 (of_int k)) = of_int k"
proof -
  have "k \<le> 2 ^ 53" using assms(2) by simp
  then show ?thesis using assms by (simp add: float64_of_int float32_of_int)
qed

lemma fround_double:
  assumes "0 \<le> x" "x \<le> 2 ^ 24"
  shows "Math_fround (binary64 x) = Num (float32 (float64 x))"
proof -
  have a: "0 \<le> float64 x" using assms(1) by (rule float64_nonneg)
  have b: "float64 x \<le> 2 ^ 24" using float64_mono[OF assms] by (simp only: float64_top)
  show ?thesis by (simp add: binary64_finite[OF assms] binary32_finite[OF a b])
qed

lemma fround_of_int:
  assumes "0 \<le> k" "k \<le> 2 ^ 24"
  shows "Math_fround (Num (of_int k)) = Num (of_int k)"
proof -
  have "(0::rat) \<le> of_int k" "(of_int k :: rat) \<le> 2 ^ 24" using assms by simp_all
  then show ?thesis using assms by (simp add: binary32_finite float32_of_int)
qed

lemma binary64_of_int:
  assumes "0 \<le> k" "k \<le> 2 ^ 24"
  shows "binary64 (of_int k) = Num (of_int k)"
proof -
  have "(0::rat) \<le> of_int k" "(of_int k :: rat) \<le> 2 ^ 24" "k \<le> 2 ^ 53" using assms by simp_all
  then show ?thesis using assms by (simp add: binary64_finite float64_of_int)
qed

subsection \<open>Evaluation on numerals\<close>

lemma floor_quot_numeral: "\<lfloor>numeral a / numeral b :: rat\<rfloor> = numeral a div numeral b"
  using floor_divide_of_int_eq[of "numeral a" "numeral b", where ?'a = rat] by simp

lemma floor_quot_one: "\<lfloor>1 / numeral b :: rat\<rfloor> = 1 div numeral b"
  using floor_divide_of_int_eq[of 1 "numeral b", where ?'a = rat] by simp

lemma ceiling_quot_numeral:
  "\<lceil>numeral a / numeral b :: rat\<rceil> = - ((- numeral a) div numeral b)"
  using floor_divide_of_int_eq[of "- numeral a" "numeral b", where ?'a = rat]
  by (simp add: ceiling_def)

lemmas float_eval = float64_def float32_def round_binary_def exponent_of_def
  round_half_even_def Let_def floor_log2.simps floor_quot_numeral floor_quot_one
  ceiling_quot_numeral

lemmas js_eval = binary32_def binary64_def overflow_def float_eval

section \<open>Rounding and clamping\<close>

lemma round_max1: "round (max 1 (x::rat)) = max 1 (round x)"
proof (cases "x \<le> 1")
  case True
  then have "round x \<le> 1" using round_mono[of x 1] by simp
  with True show ?thesis by (simp add: max_def)
next
  case False
  then have "1 \<le> round x" using round_mono[of 1 x] by simp
  with False show ?thesis by (simp add: max_def)
qed

lemma round_range:
  assumes "0 \<le> (t::rat)" "t \<le> 2 ^ 24"
  shows "0 \<le> round t" and "round t \<le> 2 ^ 24"
proof -
  show "0 \<le> round t" using round_mono[OF assms(1)] by simp
  have "round t \<le> round (of_int (2 ^ 24) :: rat)" using assms(2) by (intro round_mono) simp
  then show "round t \<le> 2 ^ 24" by (simp only: round_of_int)
qed

lemma Math_max_Num: "Math_max (Num a) (Num b) = Num (max a b)"
  by (simp add: Math_max_def max_def)

lemma Math_min_Num: "Math_min (Num a) (Num b) = Num (min a b)"
  by (simp add: Math_min_def min_def)

lemma Math_round_Num: "Math_round (Num a) = Num (of_int (round a))"
  by (simp add: round_def)

lemmas vec_eval = vec2_round_def vec2_max_def vec2_mul_def vec2_div_def clamp2_def
  Math_max_def Math_min_def js_gt_def

lemma mul_axis:
  assumes "0 \<le> a * b" "a * b \<le> 2 ^ 24"
  shows "Math_fround (js_mul (Num a) (Num b)) = Num (float32 (float64 (a * b)))"
  by (simp add: fround_double[OF assms])

lemma div_axis:
  assumes "b \<noteq> 0" "0 \<le> a / b" "a / b \<le> 2 ^ 24"
  shows "Math_fround (js_div (Num a) (Num b)) = Num (float32 (float64 (a / b)))"
  using assms(1) by (simp add: fround_double[OF assms(2,3)])

lemma max1_store:
  assumes "0 \<le> y" "float32 y \<le> 2 ^ 24"
  shows "Math_fround (Math_max (Num 1) (Num (float32 y))) = Num (max 1 (float32 y))"
proof -
  have a: "0 \<le> max 1 (float32 y)" "max 1 (float32 y) \<le> 2 ^ 24"
    using assms(2) by simp_all
  have "float32 (max 1 (float32 y)) = max 1 (float32 y)"
    using float32_idem[OF assms(1)] by (simp add: max_def)
  then show ?thesis
    by (simp add: Math_max_Num binary32_finite[OF a])
qed

lemma round_store:
  assumes "0 \<le> t" "t \<le> 2 ^ 24"
  shows "Math_fround (Math_round (Num t)) = Num (of_int (round t))"
  unfolding Math_round_Num using round_range[OF assms] by (rule fround_of_int)

lemma size_axis:
  assumes "0 \<le> sw" "sw \<le> 2 ^ 24" "0 \<le> c" "c \<le> 1"
  shows "Math_fround (Math_round (Math_fround (Math_max (Num 1)
           (Math_fround (js_mul (Num sw) (Num c))))))
         = Num (of_int (max 1 (round (float32 (float64 (sw * c))))))"
proof -
  have "sw * c \<le> sw * 1" using assms by (intro mult_left_mono) simp_all
  then have p: "0 \<le> sw * c" "sw * c \<le> 2 ^ 24" using assms by simp_all
  have y: "0 \<le> float64 (sw * c)" using p(1) by (rule float64_nonneg)
  note t = single_range[OF p]
  have m: "0 \<le> max 1 (float32 (float64 (sw * c)))" "max 1 (float32 (float64 (sw * c))) \<le> 2 ^ 24"
    using t by simp_all
  show ?thesis
    unfolding mul_axis[OF p] max1_store[OF y t(2)] round_store[OF m] round_max1 ..
qed

lemma clamp01:
  assumes "x \<noteq> NaN"
  shows "\<exists>c. Math_fround (Math_max (Num 0) (Math_min (Num 1) x)) = Num c \<and> 0 \<le> c \<and> c \<le> 1
    \<and> (js_lt x (Num 0) \<longrightarrow> c = 0) \<and> (js_gt x (Num 1) \<longrightarrow> c = 1)
    \<and> (\<not> js_lt x (Num 0) \<and> \<not> js_gt x (Num 1) \<longrightarrow> Math_fround x = Num c)"
proof (cases x)
  case (Num v)
  define m where "m = max 0 (min 1 v)"
  have m: "0 \<le> m" "m \<le> 1" "m \<le> 2 ^ 24" by (simp_all add: m_def)
  have e: "Math_fround (Math_max (Num 0) (Math_min (Num 1) x)) = Num (float32 m)"
    unfolding Num Math_min_Num Math_max_Num m_def[symmetric]
    by (simp add: binary32_finite[OF m(1,3)])
  have r: "0 \<le> float32 m" "float32 m \<le> 1"
    using float32_nonneg[OF m(1)] float32_mono[OF m(1,2)] by simp_all
  have lo: "js_lt x (Num 0) \<longrightarrow> float32 m = 0" by (simp add: Num m_def max_def min_def)
  have hi: "js_gt x (Num 1) \<longrightarrow> float32 m = 1" by (simp add: Num m_def js_gt_def max_def min_def)
  have "\<not> js_lt x (Num 0) \<and> \<not> js_gt x (Num 1) \<longrightarrow> m = v"
    by (auto simp: Num m_def js_gt_def max_def min_def)
  then have mid: "\<not> js_lt x (Num 0) \<and> \<not> js_gt x (Num 1) \<longrightarrow> Math_fround x = Num (float32 m)"
    using binary32_finite[OF m(1,3)] by (auto simp: Num)
  show ?thesis using e r lo hi mid by blast
next
  case PosInf
  then show ?thesis by (simp add: Math_max_def Math_min_def js_gt_def binary32_finite)
next
  case NegInf
  then show ?thesis by (simp add: Math_max_def Math_min_def js_gt_def binary32_finite)
next
  case NaN
  with assms show ?thesis by simp
qed

text \<open>
  The relative error of a double stored as a single, and what it leaves of an
  integer: a value within half a unit of an integer is rounded to it.
\<close>

lemma single_error:
  assumes "1 / 2 ^ 100 \<le> x"
  shows "\<bar>float32 (float64 x) - x\<bar> \<le> x * (1 / 2 ^ 24 + 1 / 2 ^ 52)"
proof -
  have x0: "0 < x" using assms by (rule less_le_trans[rotated]) simp
  have "(1::rat) / 2 ^ 1022 \<le> 1 / 2 ^ 100" by simp
  then have "1 / 2 ^ 1022 \<le> x" using assms by (rule order_trans)
  then have d: "\<bar>float64 x - x\<bar> \<le> x / 2 ^ 53" by (rule float64_error)
  then have lo: "x - x / 2 ^ 53 \<le> float64 x" and hi: "float64 x \<le> x + x / 2 ^ 53"
    by linarith+
  have "x / 2 \<le> x - x / 2 ^ 53" using x0 by simp
  then have half: "x / 2 \<le> float64 x" using lo by simp
  have "(1::rat) / 2 ^ 126 \<le> 1 / 2 ^ 100 / 2" by simp
  also have "\<dots> \<le> x / 2" by (rule divide_right_mono[OF assms]) simp
  also have "\<dots> \<le> float64 x" by (rule half)
  finally have "1 / 2 ^ 126 \<le> float64 x" .
  then have s: "\<bar>float32 (float64 x) - float64 x\<bar> \<le> float64 x / 2 ^ 24" by (rule float32_error)
  have "float64 x / 2 ^ 24 \<le> (x + x / 2 ^ 53) / 2 ^ 24" using hi by (simp add: divide_right_mono)
  then have "\<bar>float32 (float64 x) - x\<bar> \<le> (x + x / 2 ^ 53) / 2 ^ 24 + x / 2 ^ 53"
    using s d by linarith
  also have "\<dots> \<le> x * (1 / 2 ^ 24 + 1 / 2 ^ 52)" using x0 by (simp add: field_simps)
  finally show ?thesis .
qed

lemma idem_axis:
  assumes sw: "1 \<le> sw" "sw \<le> 2 ^ 21" and c: "0 \<le> c" "c \<le> 1"
    and n: "n = max 1 (round (float32 (float64 (sw * c))))"
  shows "max 1 (round (float32 (float64
           (sw * float32 (max 0 (min 1 (float32 (float64 (of_int n / sw))))))))) = n"
proof -
  define eps :: rat where "eps = 1 / 2 ^ 24 + 1 / 2 ^ 52"
  define z where "z = float32 (float64 (of_int n / sw))"
  have sw0: "0 < sw" using sw(1) by simp
  have sw24: "sw \<le> 2 ^ 24" using sw(2) by (rule order_trans) simp
  have n1: "1 \<le> n" using n by simp
  have p: "0 \<le> sw * c" "sw * c \<le> sw"
    using c sw0 by (simp_all add: mult_left_le)
  have "float32 (float64 sw) \<le> float32 (float64 (2 ^ 21))"
    using sw0 sw(2) by (intro single_mono) simp_all
  then have top: "float32 (float64 sw) \<le> 2 ^ 21"
    using single_of_int[of "2 ^ 21"] by simp
  have tle: "float32 (float64 (sw * c)) \<le> float32 (float64 sw)"
    using p by (rule single_mono)
  have "round (float32 (float64 (sw * c))) \<le> round (of_int (2 ^ 21) :: rat)"
    using tle top by (intro round_mono) simp
  then have "round (float32 (float64 (sw * c))) \<le> 2 ^ 21" by (simp only: round_of_int)
  then have n21: "n \<le> 2 ^ 21" using n by simp
  have a0: "0 \<le> of_int n / sw" using n1 sw0 by simp
  have z0: "0 \<le> z" unfolding z_def using a0 by (intro float32_nonneg float64_nonneg)
  have zz: "float32 z = z" unfolding z_def using a0 by (intro float32_idem float64_nonneg)
  have "(1::rat) / 2 ^ 100 \<le> 1" by simp
  then have "1 / 2 ^ 100 \<le> sw" using sw(1) by (rule order_trans)
  then have swe: "\<bar>float32 (float64 sw) - sw\<bar> \<le> sw * eps"
    unfolding eps_def by (rule single_error)
  show ?thesis
  proof (cases "of_int n \<le> sw")
    case True
    then have a1: "of_int n / sw \<le> 1" using sw0 by (simp add: divide_le_eq)
    have "z \<le> float32 (float64 1)" unfolding z_def using a0 a1 by (rule single_mono)
    then have z1: "z \<le> 1" by simp
    have cl: "float32 (max 0 (min 1 z)) = z" using z0 z1 zz by (simp add: max_def min_def)
    have "(1::rat) \<le> of_int n" using n1 by simp
    then have "1 / sw \<le> of_int n / sw" using sw0 by (simp add: divide_right_mono)
    moreover have "1 / 2 ^ 21 \<le> 1 / sw" using sw sw0 by (simp add: frac_le)
    moreover have "(1::rat) / 2 ^ 100 \<le> 1 / 2 ^ 21" by simp
    ultimately have "1 / 2 ^ 100 \<le> of_int n / sw" by linarith
    then have "\<bar>z - of_int n / sw\<bar> \<le> of_int n / sw * eps"
      unfolding z_def eps_def by (rule single_error)
    then have "sw * \<bar>z - of_int n / sw\<bar> \<le> sw * (of_int n / sw * eps)"
      using sw0 by (intro mult_left_mono) simp_all
    moreover have "sw * \<bar>z - of_int n / sw\<bar> = \<bar>sw * z - of_int n\<bar>"
    proof -
      have "sw * z - of_int n = sw * (z - of_int n / sw)" using sw0 by (simp add: field_simps)
      then have "\<bar>sw * z - of_int n\<bar> = \<bar>sw\<bar> * \<bar>z - of_int n / sw\<bar>" by (simp only: abs_mult)
      then show ?thesis using sw0 by simp
    qed
    moreover have "sw * (of_int n / sw * eps) = of_int n * eps" using sw0 by simp
    ultimately have b0: "\<bar>sw * z - of_int n\<bar> \<le> of_int n * eps" by simp
    have nb: "(1::rat) \<le> of_int n" "(of_int n :: rat) \<le> 2 ^ 21"
      using n1 n21 by (simp_all add: of_int_le_numeral_power_cancel_iff)
    have e1: "eps \<le> 1 / 2 ^ 23" "0 \<le> eps" by (simp_all add: eps_def)
    have ne: "of_int n * eps \<le> 2 ^ 21 * eps" using nb e1 by (intro mult_right_mono) simp_all
    have "2 ^ 21 * eps \<le> (3::rat) / 8" by (simp add: eps_def)
    then have ne': "of_int n * eps \<le> 3 / 8" using ne by simp
    have lo: "of_int n - of_int n * eps \<le> sw * z" and hi: "sw * z \<le> of_int n + of_int n * eps"
      using b0 by (simp_all add: abs_le_iff)
    have "1 / 2 \<le> sw * z" using lo ne' nb by linarith
    then have "1 / 2 ^ 100 \<le> sw * z" by (rule order_trans[rotated]) simp
    then have b2: "\<bar>float32 (float64 (sw * z)) - sw * z\<bar> \<le> sw * z * eps"
      unfolding eps_def by (rule single_error)
    have "sw * z * eps \<le> (of_int n + of_int n * eps) * eps"
      using hi e1 by (intro mult_right_mono) simp_all
    also have "\<dots> = of_int n * eps + of_int n * eps * eps" by (simp add: field_simps)
    also have "\<dots> \<le> 2 ^ 21 * eps + 2 ^ 21 * eps * eps"
      using ne e1 n21 by (intro add_mono mult_right_mono) simp_all
    finally have "\<bar>float32 (float64 (sw * z)) - of_int n\<bar>
        \<le> 2 ^ 21 * eps + 2 ^ 21 * eps * eps + 2 ^ 21 * eps"
      using b2 b0 ne by linarith
    moreover have "2 ^ 21 * eps + 2 ^ 21 * eps * eps + 2 ^ 21 * eps < (1::rat) / 2"
      by (simp add: eps_def)
    ultimately have "\<bar>float32 (float64 (sw * z)) - of_int n\<bar> < 1 / 2" by linarith
    then have "round (float32 (float64 (sw * z))) = n"
      by (intro round_unique) linarith+
    then show ?thesis unfolding z_def[symmetric] cl using n1 by simp
  next
    case False
    then have gt: "sw < of_int n" by simp
    then have "1 \<le> of_int n / sw" using sw0 by (simp add: le_divide_eq)
    then have "float32 (float64 1) \<le> z" unfolding z_def by (intro single_mono) simp_all
    then have "1 \<le> z" by simp
    then have cl: "float32 (max 0 (min 1 z)) = 1" by (simp add: max_def min_def)
    have "n \<noteq> 1" using gt sw(1) by auto
    then have nr: "n = round (float32 (float64 (sw * c)))" using n by (simp add: max_def split: if_splits)
    have le: "n \<le> round (float32 (float64 sw))" unfolding nr using tle by (rule round_mono)
    have "sw * eps \<le> 2 ^ 21 * eps" using sw(2) by (intro mult_right_mono) (simp_all add: eps_def)
    moreover have "2 ^ 21 * eps \<le> (1::rat) / 4" by (simp add: eps_def)
    ultimately have "float32 (float64 sw) \<le> sw + 1 / 4" using swe by (simp add: abs_le_iff)
    moreover have "(of_int (round (float32 (float64 sw))) :: rat) \<le> float32 (float64 sw) + 1 / 2"
      by (rule of_int_round_le)
    ultimately have "of_int (round (float32 (float64 sw))) < (of_int n :: rat) + 1" using gt by simp
    then have "round (float32 (float64 sw)) < n + 1" by (metis of_int_1 of_int_add of_int_less_iff)
    with le have "round (float32 (float64 sw)) = n" by simp
    then show ?thesis unfolding z_def[symmetric] cl using n1 by simp
  qed
qed

lemma reapply_axis:
  assumes sw: "1 \<le> sw" "sw \<le> 2 ^ 21" and c: "0 \<le> c" "c \<le> 1"
    and n: "n = max 1 (round (float32 (float64 (sw * c))))"
  shows "Math_fround (Math_round (Math_fround (Math_max (Num 1) (Math_fround (js_mul (Num sw)
           (Math_fround (Math_max (Num 0) (Math_min (Num 1)
              (Num (float32 (float64 (of_int n / sw))))))))))))
         = Num (of_int n)"
proof -
  define m where "m = max 0 (min 1 (float32 (float64 (of_int n / sw))))"
  have m: "0 \<le> m" "m \<le> 1" "m \<le> 2 ^ 24" by (simp_all add: m_def)
  have r: "0 \<le> float32 m" "float32 m \<le> 1"
    using float32_nonneg[OF m(1)] float32_mono[OF m(1,2)] by simp_all
  have s: "0 \<le> sw" "sw \<le> 2 ^ 24" using sw by simp_all
  show ?thesis
    unfolding Math_min_Num Math_max_Num m_def[symmetric] Math_fround.simps
      binary32_finite[OF m(1,3)] size_axis[OF s r]
    using idem_axis[OF sw c n] by (simp only: m_def)
qed

lemma clamp1S:
  assumes "x \<noteq> NaN" "1 \<le> sw" "sw \<le> 2 ^ 24"
  shows "\<exists>c. Math_fround (Math_max (Num 1) (Math_min (Num sw) x)) = Num c
    \<and> 1 \<le> c \<and> c \<le> float32 sw \<and> c \<le> 2 ^ 24
    \<and> (js_lt x (Num 1) \<longrightarrow> c = 1) \<and> (js_gt x (Num sw) \<longrightarrow> c = float32 sw)
    \<and> (\<not> js_lt x (Num 1) \<and> \<not> js_gt x (Num sw) \<longrightarrow> Math_fround x = Num c)"
proof -
  have "float32 sw \<le> float32 (2 ^ 24)"
    using assms(2,3) by (intro float32_mono) simp_all
  then have top: "float32 sw \<le> 2 ^ 24" by (simp only: float32_top)
  have bot: "1 \<le> float32 sw"
    using float32_mono[of 1 sw] assms(2) by simp
  have fin: "binary32 sw = Num (float32 sw)"
    using assms(2,3) by (intro binary32_finite) simp_all
  show ?thesis
  proof (cases x)
    case (Num v)
    define m where "m = max 1 (min sw v)"
    have m: "1 \<le> m" "m \<le> sw" "0 \<le> m" "m \<le> 2 ^ 24" using assms(2,3) by (simp_all add: m_def)
    have e: "Math_fround (Math_max (Num 1) (Math_min (Num sw) x)) = Num (float32 m)"
      unfolding Num Math_min_Num Math_max_Num m_def[symmetric]
      by (simp add: binary32_finite[OF m(3,4)])
    have r: "1 \<le> float32 m" "float32 m \<le> float32 sw"
      using float32_mono[of 1 m] float32_mono[OF m(3,2)] m(1) by simp_all
    have lo: "js_lt x (Num 1) \<longrightarrow> float32 m = 1"
      using assms(2) by (simp add: Num m_def max_def min_def)
    have hi: "js_gt x (Num sw) \<longrightarrow> float32 m = float32 sw"
      using assms(2) by (simp add: Num m_def js_gt_def max_def min_def)
    have "\<not> js_lt x (Num 1) \<and> \<not> js_gt x (Num sw) \<longrightarrow> m = v"
      by (auto simp: Num m_def js_gt_def max_def min_def)
    then have mid: "\<not> js_lt x (Num 1) \<and> \<not> js_gt x (Num sw) \<longrightarrow> Math_fround x = Num (float32 m)"
      using binary32_finite[OF m(3,4)] by (auto simp: Num)
    show ?thesis using e r top lo hi mid by (meson order_trans)
  next
    case PosInf
    have "Math_min (Num sw) x = Num sw" by (simp add: PosInf Math_min_def)
    moreover have "max 1 sw = sw" using assms(2) by simp
    ultimately have "Math_fround (Math_max (Num 1) (Math_min (Num sw) x)) = Num (float32 sw)"
      by (simp add: Math_max_Num fin)
    then show ?thesis using bot top by (simp add: PosInf js_gt_def)
  next
    case NegInf
    have "Math_fround (Math_max (Num 1) (Math_min (Num sw) x)) = Num 1"
      by (simp add: NegInf Math_max_def Math_min_def binary32_finite)
    then show ?thesis using bot by (simp add: NegInf js_gt_def)
  next
    case NaN
    with assms(1) show ?thesis by simp
  qed
qed

section \<open>What the two setters store\<close>

lemma set_frameScale_total: "\<exists>w'. Canvas_set_frameScale s w = Inr w'"
  by (simp add: Canvas_set_frameScale_def Let_def)

lemma set_frameScale_fields:
  assumes "Canvas_set_frameScale s w = Inr w'"
  shows "c_frameSize w' = vec2_round (vec2_max (Num 1, Num 1)
           (vec2_mul (c_size w) (clamp2 s (Num 0, Num 0) (Num 1, Num 1))))"
    and "c_frameScale w' = vec2_div (c_frameSize w') (c_size w)"
    and "c_favorSizeOverScale w' = False"
    and "c_size w' = c_size w"
  using assms by (auto simp: Canvas_set_frameScale_def Let_def split: option.splits)

lemma set_frameScale_effects:
  assumes "Canvas_set_frameScale s w = Inr w'"
  shows "c_renderer w' = c_renderer w"
    and "ctl_blocked w' = ctl_blocked w"
    and "ctl_controllable w' = ctl_controllable w"
    and "el_size w' = el_size w"
    and "calls w' = calls w @
          (case c_renderer w of None \<Rightarrow> [] | Some r \<Rightarrow> [Call_set_frameSize r (c_frameSize w')])"
    and "heap w' = (case c_renderer w of None \<Rightarrow> heap w
          | Some r \<Rightarrow> (heap w)(r := (heap w r)\<lparr>r_frameSize := c_frameSize w'\<rparr>))"
  using assms by (auto simp: Canvas_set_frameScale_def Let_def split: option.splits)

lemma set_frameSize_total: "\<exists>w'. Canvas_set_frameSize sz w = Inr w'"
  by (simp add: Canvas_set_frameSize_def Let_def)

lemma set_frameSize_fields:
  assumes "Canvas_set_frameSize sz w = Inr w'"
  shows "c_frameSize w' = vec2_round (clamp2 sz (Num 1, Num 1) (c_size w))"
    and "c_frameScale w' = vec2_div (c_frameSize w') (c_size w)"
    and "c_favorSizeOverScale w' = (\<not> vec2_exactEquals (c_frameSize w') (c_size w))"
    and "c_size w' = c_size w"
  using assms by (auto simp: Canvas_set_frameSize_def Let_def split: option.splits)

lemma set_frameSize_effects:
  assumes "Canvas_set_frameSize sz w = Inr w'"
  shows "c_renderer w' = c_renderer w"
    and "ctl_blocked w' = ctl_blocked w"
    and "ctl_controllable w' = ctl_controllable w"
    and "el_size w' = el_size w"
    and "calls w' = calls w @
          (case c_renderer w of None \<Rightarrow> [] | Some r \<Rightarrow> [Call_set_frameSize r (c_frameSize w')])"
    and "heap w' = (case c_renderer w of None \<Rightarrow> heap w
          | Some r \<Rightarrow> (heap w)(r := (heap w r)\<lparr>r_frameSize := c_frameSize w'\<rparr>))"
  using assms by (auto simp: Canvas_set_frameSize_def Let_def split: option.splits)

section \<open>The frame scale setter\<close>

text \<open>
  C1 (as the code has it). On a canvas whose surface size is between 1 and 2^21 in
  each component, the setter of frameScale, given any scale whose components are
  numbers (not NaN), clamps each component to [0, 1] (below 0 it becomes 0, above 1
  it becomes 1, else it is the input rounded to single precision), stores as frame
  size the product of surface size and clamped scale, rounded to single precision and
  then to the nearest integer, at least 1 per axis, stores as frame scale that integer
  size divided by the surface size, rounded to single precision, and clears
  favorSizeOverScale. Setting the scale read back changes neither the stored size nor
  the stored scale.
\<close>

theorem frameScale_setter_roundtrip:
  assumes S: "c_size w = (Num sw, Num sh)"
    and sw: "1 \<le> sw" "sw \<le> 2 ^ 21" and sh: "1 \<le> sh" "sh \<le> 2 ^ 21"
    and sx: "fst s \<noteq> NaN" and sy: "snd s \<noteq> NaN"
  shows "\<exists>w' cx cy.
      Canvas_set_frameScale s w = Inr w'
    \<and> clamp2 s (Num 0, Num 0) (Num 1, Num 1) = (Num cx, Num cy)
    \<and> 0 \<le> cx \<and> cx \<le> 1 \<and> 0 \<le> cy \<and> cy \<le> 1
    \<and> (js_lt (fst s) (Num 0) \<longrightarrow> cx = 0) \<and> (js_gt (fst s) (Num 1) \<longrightarrow> cx = 1)
    \<and> (\<not> js_lt (fst s) (Num 0) \<and> \<not> js_gt (fst s) (Num 1) \<longrightarrow> Math_fround (fst s) = Num cx)
    \<and> (js_lt (snd s) (Num 0) \<longrightarrow> cy = 0) \<and> (js_gt (snd s) (Num 1) \<longrightarrow> cy = 1)
    \<and> (\<not> js_lt (snd s) (Num 0) \<and> \<not> js_gt (snd s) (Num 1) \<longrightarrow> Math_fround (snd s) = Num cy)
    \<and> c_frameSize w' = (Num (of_int (max 1 (round (float32 (float64 (sw * cx)))))),
                          Num (of_int (max 1 (round (float32 (float64 (sh * cy)))))))
    \<and> c_frameScale w' =
         (Num (float32 (float64 (of_int (max 1 (round (float32 (float64 (sw * cx))))) / sw))),
          Num (float32 (float64 (of_int (max 1 (round (float32 (float64 (sh * cy))))) / sh))))
    \<and> c_frameScale w' = vec2_div (c_frameSize w') (c_size w)
    \<and> \<not> c_favorSizeOverScale w'
    \<and> (\<exists>w''. Canvas_set_frameScale (c_frameScale w') w' = Inr w''
          \<and> c_frameSize w'' = c_frameSize w' \<and> c_frameScale w'' = c_frameScale w'
          \<and> \<not> c_favorSizeOverScale w'')"
proof -
  obtain w' where w': "Canvas_set_frameScale s w = Inr w'"
    using set_frameScale_total by blast
  obtain cx where cx: "Math_fround (Math_max (Num 0) (Math_min (Num 1) (fst s))) = Num cx"
    "0 \<le> cx" "cx \<le> 1"
    "js_lt (fst s) (Num 0) \<longrightarrow> cx = 0" "js_gt (fst s) (Num 1) \<longrightarrow> cx = 1"
    "\<not> js_lt (fst s) (Num 0) \<and> \<not> js_gt (fst s) (Num 1) \<longrightarrow> Math_fround (fst s) = Num cx"
    using clamp01[OF sx] by blast
  obtain cy where cy: "Math_fround (Math_max (Num 0) (Math_min (Num 1) (snd s))) = Num cy"
    "0 \<le> cy" "cy \<le> 1"
    "js_lt (snd s) (Num 0) \<longrightarrow> cy = 0" "js_gt (snd s) (Num 1) \<longrightarrow> cy = 1"
    "\<not> js_lt (snd s) (Num 0) \<and> \<not> js_gt (snd s) (Num 1) \<longrightarrow> Math_fround (snd s) = Num cy"
    using clamp01[OF sy] by blast
  define nx where "nx = max 1 (round (float32 (float64 (sw * cx))))"
  define ny where "ny = max 1 (round (float32 (float64 (sh * cy))))"
  have sw24: "0 \<le> sw" "sw \<le> 2 ^ 24" and sh24: "0 \<le> sh" "sh \<le> 2 ^ 24"
    using sw sh by simp_all
  have cl: "clamp2 s (Num 0, Num 0) (Num 1, Num 1) = (Num cx, Num cy)"
    by (simp add: clamp2_def cx(1) cy(1))
  have size: "c_frameSize w' = (Num (of_int nx), Num (of_int ny))"
    unfolding set_frameScale_fields(1)[OF w'] S cl nx_def ny_def
    by (simp only: vec2_round_def vec2_max_def vec2_mul_def fst_conv snd_conv
        size_axis[OF sw24 cx(2,3)] size_axis[OF sh24 cy(2,3)])
  have nb: "1 \<le> nx" "1 \<le> ny" by (simp_all add: nx_def ny_def)
  have px: "0 \<le> sw * cx" "sw * cx \<le> 2 ^ 24" and py: "0 \<le> sh * cy" "sh * cy \<le> 2 ^ 24"
    using mult_left_mono[OF cx(3), of sw] mult_left_mono[OF cy(3), of sh] sw24 sh24 cx(2) cy(2)
    by simp_all
  have "round (float32 (float64 (sw * cx))) \<le> 2 ^ 24" "round (float32 (float64 (sh * cy))) \<le> 2 ^ 24"
    using round_range(2)[OF single_range[OF px]] round_range(2)[OF single_range[OF py]] .
  then have nt: "nx \<le> 2 ^ 24" "ny \<le> 2 ^ 24" by (simp_all add: nx_def ny_def)
  have qx: "0 \<le> of_int nx / sw" "of_int nx / sw \<le> 2 ^ 24"
  proof -
    show "0 \<le> of_int nx / sw" using nb sw by simp
    have "of_int nx / sw \<le> of_int nx / 1" using nb sw by (intro divide_left_mono) simp_all
    also have "\<dots> \<le> 2 ^ 24" using nt by simp
    finally show "of_int nx / sw \<le> 2 ^ 24" .
  qed
  have qy: "0 \<le> of_int ny / sh" "of_int ny / sh \<le> 2 ^ 24"
  proof -
    show "0 \<le> of_int ny / sh" using nb sh by simp
    have "of_int ny / sh \<le> of_int ny / 1" using nb sh by (intro divide_left_mono) simp_all
    also have "\<dots> \<le> 2 ^ 24" using nt by simp
    finally show "of_int ny / sh \<le> 2 ^ 24" .
  qed
  have n0: "sw \<noteq> 0" "sh \<noteq> 0" using sw sh by auto
  have dv: "c_frameScale w' = vec2_div (c_frameSize w') (c_size w)"
    by (rule set_frameScale_fields(2)[OF w'])
  have scale: "c_frameScale w' =
      (Num (float32 (float64 (of_int nx / sw))), Num (float32 (float64 (of_int ny / sh))))"
    unfolding dv size S
    by (simp only: vec2_div_def fst_conv snd_conv div_axis[OF n0(1) qx] div_axis[OF n0(2) qy])
  have S': "c_size w' = (Num sw, Num sh)"
    using set_frameScale_fields(4)[OF w'] S by simp
  obtain w'' where w'': "Canvas_set_frameScale (c_frameScale w') w' = Inr w''"
    using set_frameScale_total by blast
  have size2: "c_frameSize w'' = (Num (of_int nx), Num (of_int ny))"
    unfolding set_frameScale_fields(1)[OF w''] S' scale
    by (simp only: vec2_round_def vec2_max_def vec2_mul_def clamp2_def fst_conv snd_conv
        reapply_axis[OF sw cx(2,3) nx_def] reapply_axis[OF sh cy(2,3) ny_def])
  have scale2: "c_frameScale w'' = c_frameScale w'"
    unfolding set_frameScale_fields(2)[OF w''] set_frameScale_fields(2)[OF w'] size2 size S' S ..
  have nf: "\<not> c_favorSizeOverScale w'" "\<not> c_favorSizeOverScale w''"
    using set_frameScale_fields(3)[OF w'] set_frameScale_fields(3)[OF w''] by simp_all
  have size2': "c_frameSize w'' = c_frameSize w'"
    using size2 size by simp
  note sz = size[unfolded nx_def ny_def] and sc = scale[unfolded nx_def ny_def]
  show ?thesis
    by (intro exI conjI)
      (rule w' cl cx(2) cx(3) cy(2) cy(3) cx(4) cx(5) cx(6) cy(4) cy(5) cy(6) sz sc dv nf(1)
        w'' size2' scale2 nf(2))+
qed

theorem frameScale_setter_roundtrip_witness:
  "c_size fresh_canvas = (Num 801, Num 600) \<and>
   (\<exists>w'. Canvas_set_frameScale (Num (1 / 2), Num (- 3)) fresh_canvas = Inr w'
      \<and> c_frameSize w' = (Num 401, Num 1)
      \<and> c_frameScale w' = (Num (8399081 / 16777216), Num (7158279 / 4294967296))
      \<and> \<not> c_favorSizeOverScale w'
      \<and> (\<exists>w''. Canvas_set_frameScale (c_frameScale w') w' = Inr w''
            \<and> c_frameSize w'' = (Num 401, Num 1)
            \<and> c_frameScale w'' = (Num (8399081 / 16777216), Num (7158279 / 4294967296))))"
proof -
  have S: "c_size fresh_canvas = (Num 801, Num 600)"
    by (simp add: fresh_canvas_def)
  have cl: "clamp2 (Num (1 / 2), Num (- 3)) (Num 0, Num 0) (Num 1, Num 1) = (Num (1 / 2), Num 0)"
    by (simp add: vec_eval js_eval)
  have h: "(1::rat) \<le> 801" "(801::rat) \<le> 2 ^ 21" "(1::rat) \<le> 600" "(600::rat) \<le> 2 ^ 21"
      "fst (Num (1 / 2), Num (- 3)) \<noteq> NaN" "snd (Num (1 / 2), Num (- 3)) \<noteq> NaN"
    by simp_all
  have r: "round (801 / 2 :: rat) = 401"
    by (simp add: round_def)
  have f: "float32 (float64 (801 / 2)) = 801 / 2" "float32 (float64 (401 / 801)) = 8399081 / 16777216"
      "float32 (float64 (1 / 600)) = 7158279 / 4294967296"
    by (simp_all add: float_eval)
  obtain w' cx cy w'' where
      w': "Canvas_set_frameScale (Num (1 / 2), Num (- 3)) fresh_canvas = Inr w'"
    and c: "(Num (1 / 2), Num 0) = (Num cx, Num cy)"
    and size: "c_frameSize w' = (Num (of_int (max 1 (round (float32 (float64 (801 * cx)))))),
                          Num (of_int (max 1 (round (float32 (float64 (600 * cy)))))))"
    and scale: "c_frameScale w' =
         (Num (float32 (float64 (of_int (max 1 (round (float32 (float64 (801 * cx))))) / 801))),
          Num (float32 (float64 (of_int (max 1 (round (float32 (float64 (600 * cy))))) / 600))))"
    and nf: "\<not> c_favorSizeOverScale w'"
    and w'': "Canvas_set_frameScale (c_frameScale w') w' = Inr w''"
      "c_frameSize w'' = c_frameSize w'" "c_frameScale w'' = c_frameScale w'"
    using frameScale_setter_roundtrip[of fresh_canvas 801 600 "(Num (1 / 2), Num (- 3))", OF S h]
    unfolding cl by (elim exE conjE) (rule that, assumption+)
  from c have cx: "cx = 1 / 2" and cy: "cy = 0" by simp_all
  have size': "c_frameSize w' = (Num 401, Num 1)"
    using size by (simp add: cx cy f r)
  have scale': "c_frameScale w' = (Num (8399081 / 16777216), Num (7158279 / 4294967296))"
    using scale by (simp add: cx cy f r)
  show ?thesis
    using S w' size' scale' nf w'' by simp
qed

text \<open>
  C1 as stated fails in three ways. A NaN component is not clamped: it is stored as
  size and as scale of its axis. The arithmetic is that of single precision: on the
  canvas of 801 by 600 the scale 1/2 gives the width 401 and the stored scale is not
  401/801 but the single nearest to it, and on a surface of 100 by 100 the scale
  569083167/2^31, for which 100 times the scale rounds to 27, gives the width 26. And
  on a surface 10000001 wide the scale 11/16 gives the width 6875001, and setting the
  scale read back gives 6875002.
\<close>

theorem frameScale_setter_counterexample:
  "c_frameSize (projr (Canvas_set_frameScale (NaN, Num (1 / 2)) fresh_canvas)) = (NaN, Num 300)
 \<and> c_frameScale (projr (Canvas_set_frameScale (NaN, Num (1 / 2)) fresh_canvas))
     = (NaN, Num (1 / 2))
 \<and> c_frameSize (projr (Canvas_set_frameScale (Num (1 / 2), Num (1 / 2)) fresh_canvas))
     = (Num 401, Num 300)
 \<and> c_frameScale (projr (Canvas_set_frameScale (Num (1 / 2), Num (1 / 2)) fresh_canvas))
     = (Num (8399081 / 16777216), Num (1 / 2))
 \<and> (8399081 / 16777216 :: rat) \<noteq> 401 / 801
 \<and> c_frameSize (projr (Canvas_set_frameScale (Num (569083167 / 2147483648), Num 1)
       (fresh_canvas\<lparr>c_size := (Num 100, Num 100)\<rparr>))) = (Num 26, Num 100)
 \<and> round (100 * (569083167 / 2147483648) :: rat) = 27
 \<and> c_frameSize (projr (Canvas_set_frameScale (Num (11 / 16), Num 1)
       (fresh_canvas\<lparr>c_size := (Num 10000001, Num 600)\<rparr>))) = (Num 6875001, Num 600)
 \<and> c_frameScale (projr (Canvas_set_frameScale (Num (11 / 16), Num 1)
       (fresh_canvas\<lparr>c_size := (Num 10000001, Num 600)\<rparr>)))
     = (Num (11534337 / 16777216), Num 1)
 \<and> c_frameSize (projr (Canvas_set_frameScale (Num (11534337 / 16777216), Num 1)
       (projr (Canvas_set_frameScale (Num (11 / 16), Num 1)
          (fresh_canvas\<lparr>c_size := (Num 10000001, Num 600)\<rparr>))))) = (Num 6875002, Num 600)"
proof -
  obtain a where a: "Canvas_set_frameScale (NaN, Num (1 / 2)) fresh_canvas = Inr a"
    using set_frameScale_total by blast
  obtain b where b: "Canvas_set_frameScale (Num (1 / 2), Num (1 / 2)) fresh_canvas = Inr b"
    using set_frameScale_total by blast
  obtain c where c: "Canvas_set_frameScale (Num (569083167 / 2147483648), Num 1)
       (fresh_canvas\<lparr>c_size := (Num 100, Num 100)\<rparr>) = Inr c"
    using set_frameScale_total by blast
  obtain d where d: "Canvas_set_frameScale (Num (11 / 16), Num 1)
       (fresh_canvas\<lparr>c_size := (Num 10000001, Num 600)\<rparr>) = Inr d"
    using set_frameScale_total by blast
  obtain e where e: "Canvas_set_frameScale (Num (11534337 / 16777216), Num 1) d = Inr e"
    using set_frameScale_total by blast
  have S: "c_size fresh_canvas = (Num 801, Num 600)"
      "c_size (fresh_canvas\<lparr>c_size := (Num 100, Num 100)\<rparr>) = (Num 100, Num 100)"
      "c_size (fresh_canvas\<lparr>c_size := (Num 10000001, Num 600)\<rparr>) = (Num 10000001, Num 600)"
    by (simp_all add: fresh_canvas_def)
  have a1: "c_frameSize a = (NaN, Num 300)"
    unfolding set_frameScale_fields(1)[OF a] S by (simp add: vec_eval js_eval)
  have a2: "c_frameScale a = (NaN, Num (1 / 2))"
    unfolding set_frameScale_fields(2)[OF a] a1 S by (simp add: vec_eval js_eval)
  have b1: "c_frameSize b = (Num 401, Num 300)"
    unfolding set_frameScale_fields(1)[OF b] S by (simp add: vec_eval js_eval)
  have b2: "c_frameScale b = (Num (8399081 / 16777216), Num (1 / 2))"
    unfolding set_frameScale_fields(2)[OF b] b1 S by (simp add: vec_eval js_eval)
  have c1: "c_frameSize c = (Num 26, Num 100)"
    unfolding set_frameScale_fields(1)[OF c] S by (simp add: vec_eval js_eval)
  have r: "round (100 * (569083167 / 2147483648) :: rat) = 27"
    by (simp add: round_def floor_quot_numeral)
  have d1: "c_frameSize d = (Num 6875001, Num 600)"
    unfolding set_frameScale_fields(1)[OF d] S by (simp add: vec_eval js_eval)
  have d2: "c_frameScale d = (Num (11534337 / 16777216), Num 1)"
    unfolding set_frameScale_fields(2)[OF d] d1 S by (simp add: vec_eval js_eval)
  have d3: "c_size d = (Num 10000001, Num 600)"
    unfolding set_frameScale_fields(4)[OF d] S ..
  have e1: "c_frameSize e = (Num 6875002, Num 600)"
    unfolding set_frameScale_fields(1)[OF e] d3 by (simp add: vec_eval js_eval)
  show ?thesis
    unfolding a b c d sum.sel e using a1 a2 b1 b2 c1 r d1 d2 e1 by simp
qed

section \<open>The frame size setter\<close>

lemma exactEquals_Num:
  "vec2_exactEquals (Num a, Num b) (Num c, Num d) = ((Num a, Num b) = (Num c, Num d))"
  by (simp add: vec2_exactEquals_def js_strict_eq_def)

lemma onResize_scale_mode:
  assumes "\<not> c_favorSizeOverScale w"
  shows "\<exists>w'. Canvas_onResize w = Inr w'
    \<and> c_frameSize w' = vec2_round (vec2_max (Num 1, Num 1)
          (vec2_mul (el_size w) (clamp2 (c_frameScale w) (Num 0, Num 0) (Num 1, Num 1))))
    \<and> c_frameScale w' = vec2_div (c_frameSize w') (el_size w)
    \<and> c_size w' = el_size w
    \<and> \<not> c_favorSizeOverScale w'"
proof -
  define w3 where "w3 = (let w1 = retrieveSize w;
          w2 = w1\<lparr>el_width := fst (c_size w1), el_height := snd (c_size w1)\<rparr>
      in if c_renderer w2 \<noteq> None then Controller_block w2 else w2)"
  have w3: "c_size w3 = el_size w" "c_frameScale w3 = c_frameScale w"
      "\<not> c_favorSizeOverScale w3"
    using assms by (simp_all add: w3_def Let_def)
  obtain w4 where w4: "Canvas_set_frameScale (c_frameScale w3) w3 = Inr w4"
    using set_frameScale_total by blast
  have r: "Canvas_onResize w = Inr (if c_renderer w4 \<noteq> None then Controller_unblock w4 else w4)"
    using w4 w3(3) by (simp add: Canvas_onResize_def w3_def Let_def)
  show ?thesis
    using set_frameScale_fields[OF w4] unfolding r w3
    by simp
qed

text \<open>
  C2 (as the code has it). On a canvas whose surface size is between 1 and 2^24 in
  each component, the setter of frameSize, given any size whose components are
  numbers (not NaN), clamps each axis to [1, surface size] in single precision (below
  1 it becomes 1, above the surface size it becomes the surface size rounded to
  single precision, else it is the input rounded to single precision) and rounds it
  to the nearest integer, stores as frame scale that size divided by the surface
  size, rounded to single precision, and sets favorSizeOverScale exactly when the
  stored size differs from the surface size. When the stored size is the full surface
  size the flag is false and the scale is 1, and a later resize to an element size
  between 0 and 2^24 per axis computes the frame size from the scale: the frame size
  is the new surface size (in single precision, rounded, at least 1).
\<close>

theorem frameSize_setter_mode:
  assumes S: "c_size w = (Num sw, Num sh)"
    and sw: "1 \<le> sw" "sw \<le> 2 ^ 24" and sh: "1 \<le> sh" "sh \<le> 2 ^ 24"
    and sx: "fst sz \<noteq> NaN" and sy: "snd sz \<noteq> NaN"
  shows "\<exists>w' cx cy.
      Canvas_set_frameSize sz w = Inr w'
    \<and> clamp2 sz (Num 1, Num 1) (c_size w) = (Num cx, Num cy)
    \<and> 1 \<le> cx \<and> cx \<le> float32 sw \<and> 1 \<le> cy \<and> cy \<le> float32 sh
    \<and> (js_lt (fst sz) (Num 1) \<longrightarrow> cx = 1) \<and> (js_gt (fst sz) (Num sw) \<longrightarrow> cx = float32 sw)
    \<and> (\<not> js_lt (fst sz) (Num 1) \<and> \<not> js_gt (fst sz) (Num sw) \<longrightarrow> Math_fround (fst sz) = Num cx)
    \<and> (js_lt (snd sz) (Num 1) \<longrightarrow> cy = 1) \<and> (js_gt (snd sz) (Num sh) \<longrightarrow> cy = float32 sh)
    \<and> (\<not> js_lt (snd sz) (Num 1) \<and> \<not> js_gt (snd sz) (Num sh) \<longrightarrow> Math_fround (snd sz) = Num cy)
    \<and> c_frameSize w' = (Num (of_int (round cx)), Num (of_int (round cy)))
    \<and> c_frameScale w' = (Num (float32 (float64 (of_int (round cx) / sw))),
                           Num (float32 (float64 (of_int (round cy) / sh))))
    \<and> c_frameScale w' = vec2_div (c_frameSize w') (c_size w)
    \<and> c_favorSizeOverScale w' = (c_frameSize w' \<noteq> c_size w)
    \<and> (c_frameSize w' = c_size w \<longrightarrow>
          c_frameScale w' = (Num 1, Num 1)
        \<and> (\<forall>e0 e1. 0 \<le> e0 \<and> e0 \<le> 2 ^ 24 \<and> 0 \<le> e1 \<and> e1 \<le> 2 ^ 24 \<longrightarrow>
             (\<exists>w''. Canvas_onResize (w'\<lparr>el_size := (Num e0, Num e1)\<rparr>) = Inr w''
                \<and> c_frameSize w'' = (Num (of_int (max 1 (round (float32 (float64 e0))))),
                                       Num (of_int (max 1 (round (float32 (float64 e1))))))
                \<and> \<not> c_favorSizeOverScale w'')))"
proof -
  obtain w' where w': "Canvas_set_frameSize sz w = Inr w'"
    using set_frameSize_total by blast
  obtain cx where cx: "Math_fround (Math_max (Num 1) (Math_min (Num sw) (fst sz))) = Num cx"
    "1 \<le> cx" "cx \<le> float32 sw" "cx \<le> 2 ^ 24"
    "js_lt (fst sz) (Num 1) \<longrightarrow> cx = 1" "js_gt (fst sz) (Num sw) \<longrightarrow> cx = float32 sw"
    "\<not> js_lt (fst sz) (Num 1) \<and> \<not> js_gt (fst sz) (Num sw) \<longrightarrow> Math_fround (fst sz) = Num cx"
    using clamp1S[OF sx sw] by blast
  obtain cy where cy: "Math_fround (Math_max (Num 1) (Math_min (Num sh) (snd sz))) = Num cy"
    "1 \<le> cy" "cy \<le> float32 sh" "cy \<le> 2 ^ 24"
    "js_lt (snd sz) (Num 1) \<longrightarrow> cy = 1" "js_gt (snd sz) (Num sh) \<longrightarrow> cy = float32 sh"
    "\<not> js_lt (snd sz) (Num 1) \<and> \<not> js_gt (snd sz) (Num sh) \<longrightarrow> Math_fround (snd sz) = Num cy"
    using clamp1S[OF sy sh] by blast
  have c0: "0 \<le> cx" "0 \<le> cy" using cx(2) cy(2) by simp_all
  have cl: "clamp2 sz (Num 1, Num 1) (c_size w) = (Num cx, Num cy)"
    by (simp add: clamp2_def S cx(1) cy(1))
  have size: "c_frameSize w' = (Num (of_int (round cx)), Num (of_int (round cy)))"
    unfolding set_frameSize_fields(1)[OF w'] cl
    by (simp only: vec2_round_def fst_conv snd_conv round_store[OF c0(1) cx(4)]
        round_store[OF c0(2) cy(4)])
  have dv: "c_frameScale w' = vec2_div (c_frameSize w') (c_size w)"
    by (rule set_frameSize_fields(2)[OF w'])
  have rb: "0 \<le> round cx" "round cx \<le> 2 ^ 24" "0 \<le> round cy" "round cy \<le> 2 ^ 24"
    using round_range[OF c0(1) cx(4)] round_range[OF c0(2) cy(4)] by simp_all
  have qx: "0 \<le> of_int (round cx) / sw" "of_int (round cx) / sw \<le> 2 ^ 24"
  proof -
    show "0 \<le> of_int (round cx) / sw" using rb sw by simp
    have "of_int (round cx) / sw \<le> of_int (round cx) / 1" using rb sw by (intro divide_left_mono) simp_all
    also have "\<dots> \<le> 2 ^ 24" using rb by simp
    finally show "of_int (round cx) / sw \<le> 2 ^ 24" .
  qed
  have qy: "0 \<le> of_int (round cy) / sh" "of_int (round cy) / sh \<le> 2 ^ 24"
  proof -
    show "0 \<le> of_int (round cy) / sh" using rb sh by simp
    have "of_int (round cy) / sh \<le> of_int (round cy) / 1" using rb sh by (intro divide_left_mono) simp_all
    also have "\<dots> \<le> 2 ^ 24" using rb by simp
    finally show "of_int (round cy) / sh \<le> 2 ^ 24" .
  qed
  have n0: "sw \<noteq> 0" "sh \<noteq> 0" using sw sh by auto
  have scale: "c_frameScale w' = (Num (float32 (float64 (of_int (round cx) / sw))),
                           Num (float32 (float64 (of_int (round cy) / sh))))"
    unfolding dv size S
    by (simp only: vec2_div_def fst_conv snd_conv div_axis[OF n0(1) qx] div_axis[OF n0(2) qy])
  have favor: "c_favorSizeOverScale w' = (c_frameSize w' \<noteq> c_size w)"
    unfolding set_frameSize_fields(3)[OF w'] unfolding size S exactEquals_Num by simp
  have snap: "c_frameSize w' = c_size w \<longrightarrow>
          c_frameScale w' = (Num 1, Num 1)
        \<and> (\<forall>e0 e1. 0 \<le> e0 \<and> e0 \<le> 2 ^ 24 \<and> 0 \<le> e1 \<and> e1 \<le> 2 ^ 24 \<longrightarrow>
             (\<exists>w''. Canvas_onResize (w'\<lparr>el_size := (Num e0, Num e1)\<rparr>) = Inr w''
                \<and> c_frameSize w'' = (Num (of_int (max 1 (round (float32 (float64 e0))))),
                                       Num (of_int (max 1 (round (float32 (float64 e1))))))
                \<and> \<not> c_favorSizeOverScale w''))"
  proof (intro impI allI conjI)
    assume full: "c_frameSize w' = c_size w"
    then have "of_int (round cx) = sw" "of_int (round cy) = sh"
      unfolding size S by simp_all
    then show one: "c_frameScale w' = (Num 1, Num 1)"
      unfolding scale using n0 by simp
    fix e0 e1 :: rat
    assume e: "0 \<le> e0 \<and> e0 \<le> 2 ^ 24 \<and> 0 \<le> e1 \<and> e1 \<le> 2 ^ 24"
    have nf: "\<not> c_favorSizeOverScale (w'\<lparr>el_size := (Num e0, Num e1)\<rparr>)"
      using favor full by simp
    have cl1: "clamp2 (Num 1, Num 1) (Num 0, Num 0) (Num 1, Num 1) = (Num 1, Num 1)"
      by (simp add: clamp2_def Math_max_def Math_min_def binary32_finite)
    obtain w'' where w'': "Canvas_onResize (w'\<lparr>el_size := (Num e0, Num e1)\<rparr>) = Inr w''"
      and sz'': "c_frameSize w'' = vec2_round (vec2_max (Num 1, Num 1)
          (vec2_mul (el_size (w'\<lparr>el_size := (Num e0, Num e1)\<rparr>))
             (clamp2 (c_frameScale (w'\<lparr>el_size := (Num e0, Num e1)\<rparr>)) (Num 0, Num 0) (Num 1, Num 1))))"
      and nf'': "\<not> c_favorSizeOverScale w''"
      using onResize_scale_mode[OF nf] by blast
    have a0: "Math_fround (Math_round (Math_fround (Math_max (Num 1)
           (Math_fround (js_mul (Num e0) (Num 1))))))
         = Num (of_int (max 1 (round (float32 (float64 e0)))))"
      using size_axis[of e0 1] e by simp
    have a1: "Math_fround (Math_round (Math_fround (Math_max (Num 1)
           (Math_fround (js_mul (Num e1) (Num 1))))))
         = Num (of_int (max 1 (round (float32 (float64 e1)))))"
      using size_axis[of e1 1] e by simp
    have "c_frameSize w'' = (Num (of_int (max 1 (round (float32 (float64 e0))))),
                             Num (of_int (max 1 (round (float32 (float64 e1))))))"
      unfolding sz'' by (simp add: one cl1)
        (simp only: vec2_round_def vec2_max_def vec2_mul_def fst_conv snd_conv a0 a1)
    then show "\<exists>w''. Canvas_onResize (w'\<lparr>el_size := (Num e0, Num e1)\<rparr>) = Inr w''
             \<and> c_frameSize w'' = (Num (of_int (max 1 (round (float32 (float64 e0))))),
                                    Num (of_int (max 1 (round (float32 (float64 e1))))))
             \<and> \<not> c_favorSizeOverScale w''"
      using w'' nf'' by blast
  qed
  show ?thesis
    by (intro exI conjI)
      (rule w' cl cx(2) cx(3) cy(2) cy(3) cx(5) cx(6) cx(7) cy(5) cy(6) cy(7) size scale dv favor snap)+
qed

theorem frameSize_setter_mode_witness:
  "c_size fresh_canvas = (Num 801, Num 600) \<and>
   (\<exists>w'. Canvas_set_frameSize (Num 2000, Num 600) fresh_canvas = Inr w'
      \<and> c_frameSize w' = (Num 801, Num 600)
      \<and> c_frameScale w' = (Num 1, Num 1)
      \<and> \<not> c_favorSizeOverScale w'
      \<and> (\<exists>w''. Canvas_onResize (w'\<lparr>el_size := (Num 1024, Num 768)\<rparr>) = Inr w''
            \<and> c_frameSize w'' = (Num 1024, Num 768)
            \<and> \<not> c_favorSizeOverScale w''))"
proof -
  have S: "c_size fresh_canvas = (Num 801, Num 600)"
    by (simp add: fresh_canvas_def)
  have cl: "clamp2 (Num 2000, Num 600) (Num 1, Num 1) (c_size fresh_canvas) = (Num 801, Num 600)"
    unfolding S by (simp add: vec_eval js_eval)
  have h: "(1::rat) \<le> 801" "(801::rat) \<le> 2 ^ 24" "(1::rat) \<le> 600" "(600::rat) \<le> 2 ^ 24"
      "fst (Num 2000, Num 600) \<noteq> NaN" "snd (Num 2000, Num 600) \<noteq> NaN"
    by simp_all
  obtain w' cx cy where
      w': "Canvas_set_frameSize (Num 2000, Num 600) fresh_canvas = Inr w'"
    and c: "(Num 801, Num 600) = (Num cx, Num cy)"
    and size: "c_frameSize w' = (Num (of_int (round cx)), Num (of_int (round cy)))"
    and favor: "c_favorSizeOverScale w' = (c_frameSize w' \<noteq> c_size fresh_canvas)"
    and snap: "c_frameSize w' = c_size fresh_canvas \<longrightarrow>
          c_frameScale w' = (Num 1, Num 1)
        \<and> (\<forall>e0 e1. 0 \<le> e0 \<and> e0 \<le> 2 ^ 24 \<and> 0 \<le> e1 \<and> e1 \<le> 2 ^ 24 \<longrightarrow>
             (\<exists>w''. Canvas_onResize (w'\<lparr>el_size := (Num e0, Num e1)\<rparr>) = Inr w''
                \<and> c_frameSize w'' = (Num (of_int (max 1 (round (float32 (float64 e0))))),
                                       Num (of_int (max 1 (round (float32 (float64 e1))))))
                \<and> \<not> c_favorSizeOverScale w''))"
    using frameSize_setter_mode[of fresh_canvas 801 600 "(Num 2000, Num 600)", OF S h]
    unfolding cl by (elim exE conjE) (rule that, assumption+)
  from c have cx: "cx = 801" and cy: "cy = 600" by simp_all
  have size': "c_frameSize w' = (Num 801, Num 600)"
    using size by (simp add: cx cy)
  have nf: "\<not> c_favorSizeOverScale w'"
    using favor size' S by simp
  have full: "c_frameSize w' = c_size fresh_canvas"
    using size' S by simp
  have scale': "c_frameScale w' = (Num 1, Num 1)"
    using snap full by blast
  have e: "(0::rat) \<le> 1024 \<and> (1024::rat) \<le> 2 ^ 24 \<and> (0::rat) \<le> 768 \<and> (768::rat) \<le> 2 ^ 24"
    by simp
  obtain w'' where w'': "Canvas_onResize (w'\<lparr>el_size := (Num 1024, Num 768)\<rparr>) = Inr w''"
      "c_frameSize w'' = (Num (of_int (max 1 (round (float32 (float64 1024))))),
                          Num (of_int (max 1 (round (float32 (float64 768))))))"
      "\<not> c_favorSizeOverScale w''"
    using snap[rule_format, OF full, THEN conjunct2, rule_format, OF e]
    by (elim exE conjE) (rule that, assumption+)
  have f: "float32 (float64 1024) = 1024" "float32 (float64 768) = 768"
    using single_of_int[of 1024] single_of_int[of 768] by simp_all
  have "c_frameSize w'' = (Num 1024, Num 768)"
    using w''(2) by (simp add: f)
  then show ?thesis
    using S w' size' scale' nf w''(1,3) by simp
qed

text \<open>
  C2 as stated fails in four ways. A NaN component is not clamped: it is stored as
  size and as scale of its axis. On a surface of width 0 (an element that is not laid
  out) the width 5 gives the frame width 1, which exceeds the surface, and the scale
  is infinite. The arithmetic is that of single precision: on the canvas of 801 by
  600 the width 5368709119/2^31, which rounds to 2, gives the frame width 3, and the
  stored scale is not 3/801 but the single nearest to it. And on a surface 16777217
  wide, which no single represents, the full surface size is stored as 16777216 and
  favorSizeOverScale is set.
\<close>

theorem frameSize_setter_counterexample:
  "c_frameSize (projr (Canvas_set_frameSize (NaN, Num 300) fresh_canvas)) = (NaN, Num 300)
 \<and> c_frameScale (projr (Canvas_set_frameSize (NaN, Num 300) fresh_canvas))
     = (NaN, Num (1 / 2))
 \<and> c_frameSize (projr (Canvas_set_frameSize (Num 5, Num 5)
       (fresh_canvas\<lparr>c_size := (Num 0, Num 600)\<rparr>))) = (Num 1, Num 5)
 \<and> fst (c_frameScale (projr (Canvas_set_frameSize (Num 5, Num 5)
       (fresh_canvas\<lparr>c_size := (Num 0, Num 600)\<rparr>)))) = PosInf
 \<and> c_frameSize (projr (Canvas_set_frameSize (Num (5368709119 / 2147483648), Num 300)
       fresh_canvas)) = (Num 3, Num 300)
 \<and> round (5368709119 / 2147483648 :: rat) = 2
 \<and> c_frameScale (projr (Canvas_set_frameSize (Num (5368709119 / 2147483648), Num 300)
       fresh_canvas)) = (Num (4021505 / 1073741824), Num (1 / 2))
 \<and> (4021505 / 1073741824 :: rat) \<noteq> 3 / 801
 \<and> c_frameSize (projr (Canvas_set_frameSize (Num 16777217, Num 600)
       (fresh_canvas\<lparr>c_size := (Num 16777217, Num 600)\<rparr>))) = (Num 16777216, Num 600)
 \<and> c_favorSizeOverScale (projr (Canvas_set_frameSize (Num 16777217, Num 600)
       (fresh_canvas\<lparr>c_size := (Num 16777217, Num 600)\<rparr>)))"
proof -
  obtain a where a: "Canvas_set_frameSize (NaN, Num 300) fresh_canvas = Inr a"
    using set_frameSize_total by blast
  obtain b where b: "Canvas_set_frameSize (Num 5, Num 5)
       (fresh_canvas\<lparr>c_size := (Num 0, Num 600)\<rparr>) = Inr b"
    using set_frameSize_total by blast
  obtain c where c: "Canvas_set_frameSize (Num (5368709119 / 2147483648), Num 300)
       fresh_canvas = Inr c"
    using set_frameSize_total by blast
  obtain d where d: "Canvas_set_frameSize (Num 16777217, Num 600)
       (fresh_canvas\<lparr>c_size := (Num 16777217, Num 600)\<rparr>) = Inr d"
    using set_frameSize_total by blast
  have S: "c_size fresh_canvas = (Num 801, Num 600)"
      "c_size (fresh_canvas\<lparr>c_size := (Num 0, Num 600)\<rparr>) = (Num 0, Num 600)"
      "c_size (fresh_canvas\<lparr>c_size := (Num 16777217, Num 600)\<rparr>) = (Num 16777217, Num 600)"
    by (simp_all add: fresh_canvas_def)
  have a1: "c_frameSize a = (NaN, Num 300)"
    unfolding set_frameSize_fields(1)[OF a] S by (simp add: vec_eval js_eval)
  have a2: "c_frameScale a = (NaN, Num (1 / 2))"
    unfolding set_frameSize_fields(2)[OF a] a1 S by (simp add: vec_eval js_eval)
  have b1: "c_frameSize b = (Num 1, Num 5)"
    unfolding set_frameSize_fields(1)[OF b] S by (simp add: vec_eval js_eval)
  have b2: "fst (c_frameScale b) = PosInf"
    unfolding set_frameSize_fields(2)[OF b] b1 S by (simp add: vec_eval)
  have c1: "c_frameSize c = (Num 3, Num 300)"
    unfolding set_frameSize_fields(1)[OF c] S by (simp add: vec_eval js_eval)
  have r: "round (5368709119 / 2147483648 :: rat) = 2"
    by (simp add: round_def floor_quot_numeral)
  have c2: "c_frameScale c = (Num (4021505 / 1073741824), Num (1 / 2))"
    unfolding set_frameSize_fields(2)[OF c] c1 S by (simp add: vec_eval js_eval)
  have d1: "c_frameSize d = (Num 16777216, Num 600)"
    unfolding set_frameSize_fields(1)[OF d] S by (simp add: vec_eval js_eval)
  have d2: "c_favorSizeOverScale d"
    unfolding set_frameSize_fields(3)[OF d] d1 S
    by (simp add: vec2_exactEquals_def js_strict_eq_def)
  show ?thesis
    unfolding a b c d sum.sel using a1 a2 b1 b2 c1 r c2 d1 d2 by simp
qed

section \<open>Binding and unbinding a renderer\<close>

lemma unbind_result:
  "Canvas_unbind w =
     (if c_renderer w = None then Inr w
      else Inr (w\<lparr>ctl_blocked := True, ctl_controllable := None, c_renderer := None,
                  calls := calls w @ [Call_block, Call_set_controllable None]\<rparr>))"
  by (simp add: Canvas_unbind_def Controller_block_def Controller_set_controllable_def)

lemma bind_same: "c_renderer w = r \<Longrightarrow> Canvas_bind r w = Inr w"
  by (simp add: Canvas_bind_def)

lemma bind_new:
  assumes "Canvas_bind (Some p) w = Inr w'" and "c_renderer w \<noteq> Some p"
  shows "c_renderer w' = Some p"
    and "calls w' = calls w
          @ (if c_renderer w = None then [] else [Call_block, Call_set_controllable None])
          @ [Call_initialize p, Call_set_frameSize p (c_frameSize w),
             Call_set_clearColor p (rgba (c_clearColor w)),
             Call_set_framePrecision p (c_framePrecision w),
             Call_set_debugTexture p (- 1), Call_set_controllable (Some p), Call_unblock]"
    and "c_framePrecision w' = c_framePrecision w"
    and "r_framePrecision (heap w' p) = r_supported (heap w p) (c_framePrecision w)"
    and "\<not> ctl_blocked w'"
    and "ctl_controllable w' = Some p"
    and "r_initialized (heap w' p)"
    and "\<not> r_initialized (heap w p)"
  using assms
  by (auto simp: Canvas_bind_def unbind_result Renderer_initialize_def Let_def
      split: if_splits)

lemma bind_fresh_canvas: "Canvas_bind (Some 0) fresh_canvas = Inr bound_canvas"
  by (simp add: Canvas_bind_def unbind_result Renderer_initialize_def Let_def
      fresh_canvas_def bound_canvas_def byte_renderer_def
      Renderer_set_frameSize_def Renderer_set_clearColor_def Renderer_set_framePrecision_def
      Renderer_set_debugTexture_def Controller_set_controllable_def Controller_unblock_def fun_eq_iff)


text \<open>
  C7. \<open>unbind\<close> returns the state as it is when no renderer is bound. Otherwise it
  blocks the controller, clears the controllable and the renderer reference, and
  returns with the controller blocked; the calls it makes are \<open>block\<close> and the
  assignment of the controllable, so neither \<open>uninitialize\<close> nor \<open>unblock\<close> is
  called, and the store of renderers (the pipeline's initialized state included) is
  as before.
\<close>

theorem unbind_detaches:
  "(c_renderer w = None \<longrightarrow> Canvas_unbind w = Inr w)
 \<and> (c_renderer w = Some r \<longrightarrow>
      (\<exists>w'. Canvas_unbind w = Inr w'
         \<and> w' = w\<lparr>ctl_blocked := True, ctl_controllable := None, c_renderer := None,
                  calls := calls w @ [Call_block, Call_set_controllable None]\<rparr>
         \<and> ctl_blocked w' \<and> c_renderer w' = None \<and> ctl_controllable w' = None
         \<and> heap w' = heap w \<and> r_initialized (heap w' r) = r_initialized (heap w r)
         \<and> calls w' = calls w @ [Call_block, Call_set_controllable None]
         \<and> Call_uninitialize r \<notin> set [Call_block, Call_set_controllable None]
         \<and> Call_unblock \<notin> set [Call_block, Call_set_controllable None]))"
  by (simp add: unbind_result)

theorem unbind_detaches_witness:
  "c_renderer bound_canvas = Some 0
 \<and> Canvas_unbind bound_canvas
     = Inr (bound_canvas\<lparr>ctl_blocked := True, ctl_controllable := None, c_renderer := None,
              calls := calls bound_canvas @ [Call_block, Call_set_controllable None]\<rparr>)
 \<and> r_initialized (heap bound_canvas 0)
 \<and> c_renderer fresh_canvas = None
 \<and> Canvas_unbind fresh_canvas = Inr fresh_canvas"
proof -
  have h: "c_renderer bound_canvas = Some 0" "c_renderer fresh_canvas = None"
      "r_initialized (heap bound_canvas 0)"
    by (simp_all add: fresh_canvas_def bound_canvas_def)
  show ?thesis
    using h unbind_detaches[of bound_canvas 0] unbind_detaches[of fresh_canvas 0]
    by blast
qed

text \<open>
  C6. Binding the renderer that is already bound returns the state as it is. After
  a call of \<open>bind\<close> that bound a renderer, a second call with the same renderer
  returns the state of the first, with no further call on controller or renderer:
  over the two calls \<open>initialize\<close> has been called on it exactly once.
\<close>

theorem bind_idempotent:
  "(c_renderer w = Some p \<longrightarrow> Canvas_bind (Some p) w = Inr w)
 \<and> (c_renderer w \<noteq> Some p \<and> Canvas_bind (Some p) w = Inr w1 \<longrightarrow>
        Canvas_bind (Some p) w1 = Inr w1
      \<and> count_list (calls w1) (Call_initialize p) = count_list (calls w) (Call_initialize p) + 1)"
proof (intro conjI impI)
  assume "c_renderer w = Some p"
  then show "Canvas_bind (Some p) w = Inr w" by (rule bind_same)
next
  assume a: "c_renderer w \<noteq> Some p \<and> Canvas_bind (Some p) w = Inr w1"
  then have b: "Canvas_bind (Some p) w = Inr w1" and n: "c_renderer w \<noteq> Some p" by simp_all
  show "Canvas_bind (Some p) w1 = Inr w1"
    using bind_new(1)[OF b n] by (rule bind_same)
  show "count_list (calls w1) (Call_initialize p) = count_list (calls w) (Call_initialize p) + 1"
    unfolding bind_new(2)[OF b n] by simp
qed

theorem bind_idempotent_witness:
  "c_renderer fresh_canvas \<noteq> Some 0
 \<and> Canvas_bind (Some 0) fresh_canvas = Inr bound_canvas
 \<and> Canvas_bind (Some 0) bound_canvas = Inr bound_canvas
 \<and> count_list (calls fresh_canvas) (Call_initialize 0) = 0
 \<and> count_list (calls bound_canvas) (Call_initialize 0) = 1"
proof -
  have h: "c_renderer fresh_canvas \<noteq> Some 0" "count_list (calls fresh_canvas) (Call_initialize 0) = 0"
    by (simp_all add: fresh_canvas_def)
  show ?thesis
    using h bind_fresh_canvas bind_idempotent[of fresh_canvas 0 bound_canvas]
    by simp
qed

text \<open>
  C4, evaluated where it fails. The canvas has requested the precision float and
  binds the renderer at address 0, which falls back to bytes: \<open>bind\<close> returns, the
  renderer then holds byte, and the getter of the canvas still returns float. The
  setter of framePrecision, called on that state with float, does read the
  renderer's value back and stores byte.
\<close>

theorem bind_precision_not_read_back:
  "Canvas_set_framePrecision P_float fresh_canvas
     = Inr float_canvas
 \<and> Canvas_get_framePrecision (projr (Canvas_bind (Some 0) float_canvas))
     = P_float
 \<and> r_framePrecision (heap (projr (Canvas_bind (Some 0) float_canvas)) 0)
     = P_byte
 \<and> \<not> isl (Canvas_bind (Some 0) float_canvas)
 \<and> Canvas_get_framePrecision (projr (Canvas_set_framePrecision P_float (projr (Canvas_bind (Some 0) float_canvas))))
     = P_byte"
  by (simp add: Canvas_set_framePrecision_def Canvas_get_framePrecision_def
      Canvas_bind_def unbind_result Renderer_initialize_def Let_def
      fresh_canvas_def float_canvas_def byte_renderer_def framePrecisionNext_def)

section \<open>Resizing\<close>

lemma onResize_unfold:
  "Canvas_onResize w =
     (case (if c_favorSizeOverScale w then Canvas_set_frameSize (c_frameSize w)
            else Canvas_set_frameScale (c_frameScale w))
           (if c_renderer w = None
            then (retrieveSize w)\<lparr>el_width := fst (el_size w), el_height := snd (el_size w)\<rparr>
            else Controller_block
              ((retrieveSize w)\<lparr>el_width := fst (el_size w), el_height := snd (el_size w)\<rparr>)) of
        Inl e \<Rightarrow> Inl e
      | Inr mid \<Rightarrow> Inr (if c_renderer mid = None then mid else Controller_unblock mid))"
  by (auto simp: Canvas_onResize_def Let_def split: sum.split)

lemma onResize_decomposed:
  "Canvas_resize w = Canvas_onResize w
 \<and> (\<exists>pre mid w'.
      pre = (retrieveSize w)\<lparr>el_width := fst (el_size w), el_height := snd (el_size w)\<rparr>
    \<and> c_size pre = el_size w \<and> c_frameSize pre = c_frameSize w
    \<and> c_frameScale pre = c_frameScale w
    \<and> (if c_favorSizeOverScale w then Canvas_set_frameSize (c_frameSize w)
        else Canvas_set_frameScale (c_frameScale w))
         (if c_renderer w = None then pre else Controller_block pre) = Inr mid
    \<and> w' = (if c_renderer w = None then mid else Controller_unblock mid)
    \<and> Canvas_onResize w = Inr w'
    \<and> (\<forall>r. c_renderer w = Some r \<longrightarrow>
           calls w' = calls w @ [Call_block, Call_set_frameSize r (c_frameSize w'), Call_unblock]
         \<and> ctl_blocked mid \<and> \<not> ctl_blocked w'
         \<and> r_frameSize (heap w' r) = c_frameSize w')
    \<and> (c_renderer w = None \<longrightarrow>
           calls w' = calls w \<and> ctl_blocked w' = ctl_blocked w \<and> heap w' = heap w))"
proof -
  define pre where
    "pre = (retrieveSize w)\<lparr>el_width := fst (el_size w), el_height := snd (el_size w)\<rparr>"
  define pre' where "pre' = (if c_renderer w = None then pre else Controller_block pre)"
  have p: "c_size pre = el_size w" "c_frameSize pre = c_frameSize w"
      "c_frameScale pre = c_frameScale w"
    by (simp_all add: pre_def)
  have p': "c_renderer pre' = c_renderer w" "calls pre' = calls w @ (if c_renderer w = None then [] else [Call_block])"
      "ctl_blocked pre' = (if c_renderer w = None then ctl_blocked w else True)"
      "heap pre' = heap w"
    by (simp_all add: pre'_def pre_def)
  obtain mid where mid: "(if c_favorSizeOverScale w then Canvas_set_frameSize (c_frameSize w)
        else Canvas_set_frameScale (c_frameScale w)) pre' = Inr mid"
    using set_frameSize_total[of "c_frameSize w" pre'] set_frameScale_total[of "c_frameScale w" pre']
    by (cases "c_favorSizeOverScale w") auto
  have m: "c_renderer mid = c_renderer pre'" "ctl_blocked mid = ctl_blocked pre'"
      "calls mid = calls pre' @
          (case c_renderer pre' of None \<Rightarrow> [] | Some r \<Rightarrow> [Call_set_frameSize r (c_frameSize mid)])"
      "heap mid = (case c_renderer pre' of None \<Rightarrow> heap pre'
          | Some r \<Rightarrow> (heap pre')(r := (heap pre' r)\<lparr>r_frameSize := c_frameSize mid\<rparr>))"
    using mid set_frameSize_effects[of "c_frameSize w" pre' mid]
      set_frameScale_effects[of "c_frameScale w" pre' mid]
    by (cases "c_favorSizeOverScale w"; simp)+
  define w' where "w' = (if c_renderer w = None then mid else Controller_unblock mid)"
  have r: "Canvas_onResize w = Inr w'"
    unfolding onResize_unfold pre_def[symmetric] pre'_def[symmetric] mid
    by (simp add: w'_def m(1) p'(1))
  have bound: "\<forall>r. c_renderer w = Some r \<longrightarrow>
           calls w' = calls w @ [Call_block, Call_set_frameSize r (c_frameSize w'), Call_unblock]
         \<and> ctl_blocked mid \<and> \<not> ctl_blocked w'
         \<and> r_frameSize (heap w' r) = c_frameSize w'"
    by (simp add: w'_def m p')
  have unbound: "c_renderer w = None \<longrightarrow>
           calls w' = calls w \<and> ctl_blocked w' = ctl_blocked w \<and> heap w' = heap w"
    by (simp add: w'_def m p')
  have res: "Canvas_resize w = Canvas_onResize w"
    by (simp add: Canvas_resize_def)
  show ?thesis
    apply (rule conjI[OF res])
    apply (rule exI[of _ pre], rule exI[of _ mid], rule exI[of _ w'])
    using p mid r bound unbound
    unfolding pre'_def[symmetric]
    by (intro conjI) (rule pre_def w'_def | assumption)+
qed

lemma resize_1024:
  "vec2_round (vec2_max (Num 1, Num 1) (vec2_mul (Num 1024, Num 768)
     (clamp2 (Num 1, Num 1) (Num 0, Num 0) (Num 1, Num 1)))) = (Num 1024, Num 768)"
  by (simp add: vec_eval js_eval)

text \<open>
  C8 (as the code has it). \<open>resize\<close> is \<open>onResize\<close>, which always returns. It
  reads the new surface size, leaves frame size and scale as they were, applies the
  frameSize setter to the previous frame size when favorSizeOverScale is set, and
  the frameScale setter to the previous scale otherwise. When a renderer is bound,
  the setter runs on the blocked controller and \<open>unblock\<close> follows it: the calls made
  are \<open>block\<close>, the renderer's frameSize setter with the new frame size, \<open>unblock\<close>, in
  this order. When no renderer is bound, no call is made and the controller is left
  as it is.
\<close>

theorem onResize_brackets_when_bound:
  "Canvas_resize w = Canvas_onResize w
 \<and> (\<exists>pre mid w'.
      pre = (retrieveSize w)\<lparr>el_width := fst (el_size w), el_height := snd (el_size w)\<rparr>
    \<and> c_size pre = el_size w \<and> c_frameSize pre = c_frameSize w
    \<and> c_frameScale pre = c_frameScale w
    \<and> (if c_favorSizeOverScale w then Canvas_set_frameSize (c_frameSize w)
        else Canvas_set_frameScale (c_frameScale w))
         (if c_renderer w = None then pre else Controller_block pre) = Inr mid
    \<and> w' = (if c_renderer w = None then mid else Controller_unblock mid)
    \<and> Canvas_onResize w = Inr w'
    \<and> (\<forall>r. c_renderer w = Some r \<longrightarrow>
           calls w' = calls w @ [Call_block, Call_set_frameSize r (c_frameSize w'), Call_unblock]
         \<and> ctl_blocked mid \<and> \<not> ctl_blocked w'
         \<and> r_frameSize (heap w' r) = c_frameSize w')
    \<and> (c_renderer w = None \<longrightarrow>
           calls w' = calls w \<and> ctl_blocked w' = ctl_blocked w \<and> heap w' = heap w))"
  by (rule onResize_decomposed)

theorem onResize_brackets_when_bound_witness:
  "c_renderer (bound_canvas\<lparr>el_size := (Num 1024, Num 768)\<rparr>) = Some 0
 \<and> (\<exists>w'. Canvas_onResize (bound_canvas\<lparr>el_size := (Num 1024, Num 768)\<rparr>) = Inr w'
        \<and> c_frameSize w' = (Num 1024, Num 768)
        \<and> calls w' = calls bound_canvas
             @ [Call_block, Call_set_frameSize 0 (Num 1024, Num 768), Call_unblock]
        \<and> \<not> ctl_blocked w'
        \<and> r_frameSize (heap w' 0) = (Num 1024, Num 768))
 \<and> c_renderer fresh_canvas = None
 \<and> (\<exists>w'. Canvas_onResize fresh_canvas = Inr w'
        \<and> calls w' = calls fresh_canvas \<and> ctl_blocked w')"
proof -
  let ?W = "bound_canvas\<lparr>el_size := (Num 1024, Num 768)\<rparr>"
  have h: "c_renderer ?W = Some 0" "c_renderer fresh_canvas = None"
      "\<not> c_favorSizeOverScale ?W" "ctl_blocked fresh_canvas" "calls ?W = calls bound_canvas"
    by (simp_all add: bound_canvas_def fresh_canvas_def)
  note th = onResize_brackets_when_bound[of ?W, THEN conjunct2]
  obtain mid :: world and w' where w': "Canvas_onResize ?W = Inr w'"
    and b: "\<forall>r. c_renderer ?W = Some r \<longrightarrow>
           calls w' = calls ?W @ [Call_block, Call_set_frameSize r (c_frameSize w'), Call_unblock]
         \<and> ctl_blocked mid \<and> \<not> ctl_blocked w'
         \<and> r_frameSize (heap w' r) = c_frameSize w'"
    using th by (elim exE conjE) (rule that, assumption+)
  obtain v where v: "Canvas_onResize ?W = Inr v"
    and sz: "c_frameSize v = vec2_round (vec2_max (Num 1, Num 1)
          (vec2_mul (el_size ?W) (clamp2 (c_frameScale ?W) (Num 0, Num 0) (Num 1, Num 1))))"
    using onResize_scale_mode[OF h(3)] by (elim exE conjE) (rule that, assumption+)
  have "v = w'" using v w' by simp
  then have size: "c_frameSize w' = (Num 1024, Num 768)"
    using sz by (simp add: bound_canvas_def fresh_canvas_def resize_1024)
  have c: "calls w' = calls bound_canvas
             @ [Call_block, Call_set_frameSize 0 (Num 1024, Num 768), Call_unblock]"
      "\<not> ctl_blocked w'" "r_frameSize (heap w' 0) = (Num 1024, Num 768)"
    using b[rule_format, OF h(1)] unfolding size h(5) by simp_all
  note th2 = onResize_brackets_when_bound[of fresh_canvas, THEN conjunct2]
  obtain u where u: "Canvas_onResize fresh_canvas = Inr u"
    and n: "c_renderer fresh_canvas = None \<longrightarrow>
           calls u = calls fresh_canvas \<and> ctl_blocked u = ctl_blocked fresh_canvas \<and> heap u = heap fresh_canvas"
    using th2 by (elim exE conjE) (rule that, assumption+)
  have d: "calls u = calls fresh_canvas" "ctl_blocked u"
    using n h(2) h(4) by simp_all
  show ?thesis
    using h(1) h(2) w' size c u d by blast
qed

text \<open>
  C8 as stated fails where no renderer is bound. The element of the fresh canvas
  has been resized to 1024 by 768: \<open>onResize\<close> stores the new frame size, makes no
  call at all, and leaves the controller blocked as it found it.
\<close>

theorem onResize_unbound_counterexample:
  "c_renderer (fresh_canvas\<lparr>el_size := (Num 1024, Num 768)\<rparr>) = None
 \<and> \<not> isl (Canvas_onResize (fresh_canvas\<lparr>el_size := (Num 1024, Num 768)\<rparr>))
 \<and> c_frameSize fresh_canvas = (Num 801, Num 600)
 \<and> c_frameSize (projr (Canvas_onResize (fresh_canvas\<lparr>el_size := (Num 1024, Num 768)\<rparr>)))
     = (Num 1024, Num 768)
 \<and> calls fresh_canvas = []
 \<and> calls (projr (Canvas_onResize (fresh_canvas\<lparr>el_size := (Num 1024, Num 768)\<rparr>))) = []
 \<and> ctl_blocked fresh_canvas
 \<and> ctl_blocked (projr (Canvas_onResize (fresh_canvas\<lparr>el_size := (Num 1024, Num 768)\<rparr>)))"
proof -
  let ?W = "fresh_canvas\<lparr>el_size := (Num 1024, Num 768)\<rparr>"
  have h: "c_renderer ?W = None" "\<not> c_favorSizeOverScale ?W" "calls ?W = []" "ctl_blocked ?W"
      "c_frameSize fresh_canvas = (Num 801, Num 600)" "calls fresh_canvas = []"
      "ctl_blocked fresh_canvas"
    by (simp_all add: fresh_canvas_def)
  obtain u where u: "Canvas_onResize ?W = Inr u"
    and n: "c_renderer ?W = None \<longrightarrow>
           calls u = calls ?W \<and> ctl_blocked u = ctl_blocked ?W \<and> heap u = heap ?W"
    using onResize_decomposed[of ?W, THEN conjunct2]
    by (elim exE conjE) (rule that, assumption+)
  obtain v where v: "Canvas_onResize ?W = Inr v"
    and sz: "c_frameSize v = vec2_round (vec2_max (Num 1, Num 1)
          (vec2_mul (el_size ?W) (clamp2 (c_frameScale ?W) (Num 0, Num 0) (Num 1, Num 1))))"
    using onResize_scale_mode[OF h(2)] by (elim exE conjE) (rule that, assumption+)
  have "v = u" using v u by simp
  then have size: "c_frameSize u = (Num 1024, Num 768)"
    using sz by (simp add: fresh_canvas_def resize_1024)
  show ?thesis
    unfolding u using h n size by simp
qed

section \<open>Out-of-range inputs of the setters\<close>












section \<open>Label setters and the ChangeSet\<close>

text \<open>
  C3 (as the code has it). Writing the stored value to wordWrap, alignment or
  lineAnchor, writing to color or backgroundColor a colour that equals the stored one
  by \<open>Color.equals\<close>, and writing to fontFace the reference already stored, each
  return early: the label, its ChangeSet included, is unchanged. So setting a colour
  to its current value leaves \<open>any\<close> false when it was false.
\<close>

theorem label_setters_early_return:
  "Label_set_wordWrap (l_wordWrap l) l = l
 \<and> Label_set_alignment (l_alignment l) l = l
 \<and> Label_set_lineAnchor (l_lineAnchor l) l = l
 \<and> Label_set_fontFace (l_fontFace l) l = l
 \<and> (Color_equals (l_color l) c \<longrightarrow> Label_set_color c l = l)
 \<and> (Color_equals (l_backgroundColor l) c \<longrightarrow> Label_set_backgroundColor c l = l)
 \<and> (\<not> alt_any (l_altered l) \<longrightarrow>
       \<not> alt_any (l_altered (Label_set_color (l_color l) l))
     \<and> \<not> alt_any (l_altered (Label_set_backgroundColor (l_backgroundColor l) l)))"
  by (simp add: Label_set_wordWrap_def Label_set_alignment_def Label_set_lineAnchor_def
      Label_set_fontFace_def Label_set_color_def Label_set_backgroundColor_def Color_equals_def)

theorem label_setters_early_return_witness:
  "Color_equals (l_color string_label) (Color (0, 0, 0, 1))
 \<and> Label_set_color (Color (0, 0, 0, 1)) string_label = string_label
 \<and> Color_equals (l_backgroundColor string_label) (Color (1, 1, 1, 1))
 \<and> Label_set_backgroundColor (Color (1, 1, 1, 1)) string_label = string_label
 \<and> \<not> alt_any (l_altered string_label)
 \<and> \<not> alt_any (l_altered (Label_set_color (l_color string_label) string_label))"
proof -
  have h: "Color_equals (l_color string_label) (Color (0, 0, 0, 1))"
      "Color_equals (l_backgroundColor string_label) (Color (1, 1, 1, 1))"
      "\<not> alt_any (l_altered string_label)"
    by (simp_all add: string_label_def Color_equals_def)
  show ?thesis
    using h label_setters_early_return[of string_label "Color (0, 0, 0, 1)"]
      label_setters_early_return[of string_label "Color (1, 1, 1, 1)"]
    by blast
qed

text \<open>
  C3 as stated fails for two of the setters it names. The text setter has no guard,
  and the fontFace setter compares references: writing the string the label already
  has, or a second font face with the same metrics, marks the label altered.
\<close>

theorem label_setters_counterexample:
  "l_text string_label = StringValue ''ab''
 \<and> \<not> alt_any (l_altered string_label)
 \<and> alt_any (l_altered (Label_set_text (StringValue ''ab'') string_label))
 \<and> alt_text (l_altered (Label_set_text (StringValue ''ab'') string_label))
 \<and> fonts string_label 1 = fonts string_label (l_fontFace string_label)
 \<and> alt_any (l_altered (Label_set_fontFace 1 string_label))"
  by (simp add: string_label_def Label_set_text_def Label_set_fontFace_def)

section \<open>A label on a shared text\<close>

text \<open>
  C9. For a label whose text is a shared text object, the getter \<open>altered\<close> returns
  the disjunction of the label's own \<open>any\<close> and the text's altered flag and leaves
  the state, the text included, as it is; \<open>reset\<close> clears the label's own ChangeSet
  and nothing else, so the text's flag stays and is still reported afterwards.
\<close>

theorem label_altered_shared_text:
  assumes "l_text l = TextObject r"
  shows "Label_get_altered l = (alt_any (l_altered l) \<or> t_altered (texts l r), l)
    \<and> Label_reset l = l\<lparr>l_altered := ChangeLookup_reset (l_altered l)\<rparr>
    \<and> texts (Label_reset l) = texts l
    \<and> \<not> alt_any (l_altered (Label_reset l))
    \<and> Label_get_altered (Label_reset l) = (t_altered (texts l r), Label_reset l)"
  using assms by (simp add: Label_get_altered_def Label_reset_def ChangeLookup_reset_def)

theorem label_altered_shared_text_witness:
  "l_text shared_label = TextObject 0
 \<and> Label_get_altered shared_label = (True, shared_label)
 \<and> texts (Label_reset shared_label) = texts shared_label
 \<and> Label_get_altered (Label_reset shared_label) = (True, Label_reset shared_label)"
proof -
  have h: "l_text shared_label = TextObject 0"
    by (simp add: shared_label_def)
  have t: "t_altered (texts shared_label 0)"
    by (simp add: shared_label_def string_label_def)
  note th = label_altered_shared_text[OF h]
  have a: "Label_get_altered shared_label =
      (alt_any (l_altered shared_label) \<or> t_altered (texts shared_label 0), shared_label)"
    using th by blast
  have b: "texts (Label_reset shared_label) = texts shared_label"
    using th by blast
  have c: "Label_get_altered (Label_reset shared_label) =
      (t_altered (texts shared_label 0), Label_reset shared_label)"
    using th by blast
  show ?thesis
    unfolding a c using h b t by (simp only: simp_thms)
qed

section \<open>Glyph metric queries\<close>

text \<open>
  C10. The three queries guard their index: outside the range, the result is NaN
  whatever the font faces are. The length is the number of characters of the label's
  text.
\<close>

theorem label_metric_guards:
  "Label_length l = Num (of_nat (length (Label_string l)))
 \<and> (js_lt index (Num 1) \<or> js_gt index (Label_length l) \<longrightarrow>
       (\<forall>f. Label_kerningBefore index (l\<lparr>fonts := f\<rparr>) = NaN))
 \<and> (js_lt index (Num 0) \<or> js_gt index (js_sub (Label_length l) (Num 1)) \<longrightarrow>
       (\<forall>f. Label_kerningAfter index (l\<lparr>fonts := f\<rparr>) = NaN))
 \<and> (js_lt index (Num 0) \<or> js_gt index (Label_length l) \<longrightarrow>
       (\<forall>f. Label_advance index (l\<lparr>fonts := f\<rparr>) = NaN))"
proof -
  have len: "Label_length (l\<lparr>fonts := f\<rparr>) = Label_length l" for f
    by (simp add: Label_length_def Label_string_def split: text_value.split)
  show ?thesis
    by (simp add: Label_kerningBefore_def Label_kerningAfter_def Label_advance_def len)
      (simp add: Label_length_def)
qed

theorem label_metric_guards_witness:
  "js_lt (Num 0) (Num 1)
 \<and> Label_kerningBefore (Num 0) string_label = NaN
 \<and> js_gt (Num 2) (js_sub (Label_length string_label) (Num 1))
 \<and> Label_kerningAfter (Num 2) string_label = NaN
 \<and> js_gt (Num 3) (Label_length string_label)
 \<and> Label_advance (Num 3) string_label = NaN
 \<and> Label_advance (Num 1) string_label = Num 1"
proof -
  have h: "js_lt (Num 0) (Num 1)"
      "js_gt (Num 2) (js_sub (Label_length string_label) (Num 1))"
      "js_gt (Num 3) (Label_length string_label)"
    by (simp_all add: js_gt_def js_sub_def Label_length_def Label_string_def string_label_def
        js_eval)
  have f: "string_label\<lparr>fonts := fonts string_label\<rparr> = string_label"
    by simp
  have a: "Label_advance (Num 1) string_label = Num 1"
    by (simp add: Label_advance_def Label_length_def Label_string_def string_label_def
        js_gt_def plain_face_def)
  show ?thesis
    using h a label_metric_guards[of string_label "Num 0"]
      label_metric_guards[of string_label "Num 2"]
      label_metric_guards[of string_label "Num 3"]
    by (metis f)
qed

end
